theory Spec2Isabelle
  imports Main "HOL-Library.AList"
begin

section \<open>Strings, paths and errors\<close>

text \<open>
  JavaScript strings are modelled as \<^typ>\<open>string\<close>: the strings of characters below
  \<open>U+0100\<close>. \<open>path.isAbsolute\<close> is Node's POSIX variant: a path is absolute when it is not
  empty and starts with a slash.
\<close>

definition isAbsolute :: "string \<Rightarrow> bool" where
  "isAbsolute p = (case p of [] \<Rightarrow> False | c # _ \<Rightarrow> c = CHR ''/'')"

text \<open>\<open>String.prototype.startsWith\<close> and \<open>String.prototype.includes\<close>.\<close>

fun startsWith :: "string \<Rightarrow> string \<Rightarrow> bool" where
  "startsWith s [] = True"
| "startsWith [] (c # cs) = False"
| "startsWith (d # ds) (c # cs) = (d = c \<and> startsWith ds cs)"

fun includes_str :: "string \<Rightarrow> string \<Rightarrow> bool" where
  "includes_str [] n = (n = [])"
| "includes_str (c # cs) n = (startsWith (c # cs) n \<or> includes_str cs n)"

text \<open>
  An \<open>Error\<close> object: its message, its stack, and the \<open>code\<close>, \<open>messageTemplate\<close> and
  \<open>messageData\<close> properties the loaders read or attach. \<open>new Error(m)\<close> gives a stack that
  starts with the message; the frames the runtime appends are left out.
\<close>

record js_error =
  message :: string
  stack :: string
  code :: "string option"
  messageTemplate :: "string option"
  messageData :: "(string \<times> string) list"

definition new_Error :: "string \<Rightarrow> js_error" where
  "new_Error m =
     \<lparr>message = m, stack = ''Error: '' @ m, code = None, messageTemplate = None,
      messageData = []\<rparr>"

section \<open>OverrideTester\<close>

text \<open>
  The argument \<open>files\<close> or \<open>excludedFiles\<close> of \<open>OverrideTester.create\<close>: a glob pattern, an
  array of glob patterns, or nothing.
\<close>

datatype patterns_arg = NoPatterns | OnePattern string | PatternList "string list"

text \<open>
  \<open>normalizePatterns\<close>: \<open>filter(Boolean)\<close> drops the empty strings of an array, and an empty
  string alone counts as no pattern.
\<close>

fun normalizePatterns :: "patterns_arg \<Rightarrow> string list" where
  "normalizePatterns (PatternList ps) = filter (\<lambda>p. p \<noteq> []) ps"
| "normalizePatterns (OnePattern p) = (if p \<noteq> [] then [p] else [])"
| "normalizePatterns NoPatterns = []"

text \<open>
  A matcher is the pattern it was compiled from (\<open>new Minimatch(pattern, opts)\<close>);
  \<open>toMatcher\<close> gives \<open>null\<close> for no pattern.
\<close>

definition toMatcher :: "string list \<Rightarrow> string list option" where
  "toMatcher ps = (if ps = [] then None else Some ps)"

record pattern_group =
  g_includes :: "string list option"
  g_excludes :: "string list option"

record override_tester =
  patterns :: "pattern_group list"
  basePath :: string

text \<open>The test on one pattern in the loop of \<open>create\<close>.\<close>

definition rejected_pattern :: "string \<Rightarrow> bool" where
  "rejected_pattern p = (isAbsolute p \<or> includes_str p ''..'')"

definition invalid_pattern_error :: "string \<Rightarrow> js_error" where
  "invalid_pattern_error p =
     new_Error (''Invalid override pattern (expected relative path not containing '' @
       [CHR 0x27] @ ''..'' @ [CHR 0x27] @ ''): '' @ p)"

text \<open>
  \<open>OverrideTester.create\<close>: \<open>Inl\<close> is the error thrown, \<open>Inr None\<close> the \<open>null\<close> returned
  for no pattern at all. The loop throws at the first rejected pattern.
\<close>

definition create :: "patterns_arg \<Rightarrow> patterns_arg \<Rightarrow> string \<Rightarrow> js_error + override_tester option" where
  "create files excludedFiles base =
     (let includePatterns = normalizePatterns files;
          excludePatterns = normalizePatterns excludedFiles;
          allPatterns = includePatterns @ excludePatterns
      in if allPatterns = [] then Inr None
         else (case find rejected_pattern allPatterns of
                 Some p \<Rightarrow> Inl (invalid_pattern_error p)
               | None \<Rightarrow>
                   Inr (Some \<lparr>patterns =
                               [\<lparr>g_includes = toMatcher includePatterns,
                                 g_excludes = toMatcher excludePatterns\<rparr>],
                             basePath = base\<rparr>)))"

text \<open>\<open>OverrideTester.and\<close>.\<close>

fun and_tester :: "override_tester option \<Rightarrow> override_tester option \<Rightarrow> override_tester option" where
  "and_tester a None = a"
| "and_tester None (Some b) = Some b"
| "and_tester (Some a) (Some b) = Some \<lparr>patterns = patterns a @ patterns b, basePath = basePath a\<rparr>"

text \<open>
  The specification's wording of the rejected patterns: a pattern that is absolute or has
  a segment \<open>..\<close>, the segments being the parts between slashes.
\<close>

fun segments_acc :: "string \<Rightarrow> string \<Rightarrow> string list" where
  "segments_acc acc [] = [rev acc]"
| "segments_acc acc (c # cs) =
     (if c = CHR ''/'' then rev acc # segments_acc [] cs else segments_acc (c # acc) cs)"

definition segments :: "string \<Rightarrow> string list" where
  "segments p = segments_acc [] p"

definition spec_rejected_pattern :: "string \<Rightarrow> bool" where
  "spec_rejected_pattern p = (isAbsolute p \<or> ''..'' \<in> set (segments p))"

section \<open>Loaded dependencies\<close>

text \<open>
  What a plugin or parser module exports, as far as the resolver reads it: the
  environments, the processors and the rules, each an object keyed by name or absent.
  The members are opaque, but a rule can be a module name (a string), a function or an
  object; \<open>RuleCreate f\<close> is the object \<open>{ create: f }\<close>.
\<close>

datatype rule_def = RuleName string | RuleFunction nat | RuleObject nat | RuleCreate nat

record module_def =
  module_ref :: nat
  m_environments :: "(string \<times> nat) list option"
  m_processors :: "(string \<times> nat) list option"
  m_rules :: "(string \<times> rule_def) list option"

text \<open>
  \<open>ConfigDependency\<close>, with the fields in the order its constructor assigns them. \<open>None\<close>
  is \<open>null\<close> for the definition, the error and the file path, and \<open>undefined\<close> for the
  importer's name and path.
\<close>

record config_dependency =
  dep_definition :: "module_def option"
  dep_error :: "js_error option"
  dep_filePath :: "string option"
  dep_id :: string
  dep_importerName :: "string option"
  dep_importerPath :: "string option"

text \<open>The values of the object that \<open>toJSON\<close> returns.\<close>

datatype json_value = JsonNull | JsonUndefined | JsonString string | JsonError js_error

definition json_or_null :: "string option \<Rightarrow> json_value" where
  "json_or_null x = (case x of None \<Rightarrow> JsonNull | Some s \<Rightarrow> JsonString s)"

definition json_or_undefined :: "string option \<Rightarrow> json_value" where
  "json_or_undefined x = (case x of None \<Rightarrow> JsonUndefined | Some s \<Rightarrow> JsonString s)"

text \<open>
  \<open>ConfigDependency.toJSON\<close>: the rest pattern copies every own property but \<open>definition\<close>,
  in the order of their creation.
\<close>

definition ConfigDependency_toJSON :: "config_dependency \<Rightarrow> (string \<times> json_value) list" where
  "ConfigDependency_toJSON d =
     [(''error'', (case dep_error d of None \<Rightarrow> JsonNull | Some e \<Rightarrow> JsonError e)),
      (''filePath'', json_or_null (dep_filePath d)),
      (''id'', JsonString (dep_id d)),
      (''importerName'', json_or_undefined (dep_importerName d)),
      (''importerPath'', json_or_undefined (dep_importerPath d))]"

text \<open>\<open>LoadedEntity\<close>, the class of the same role without the importer's name.\<close>

record loaded_entity =
  le_definition :: "module_def option"
  le_error :: "js_error option"
  le_filePath :: "string option"
  le_id :: string
  le_importerPath :: "string option"

text \<open>
  \<open>LoadedEntity.toJSON\<close>: \<open>if (this.filePath)\<close> is false for \<open>null\<close> and for the empty
  string.
\<close>

definition LoadedEntity_toJSON :: "loaded_entity \<Rightarrow> (string \<times> json_value) list" where
  "LoadedEntity_toJSON e =
     [(''id'', JsonString (le_id e)),
      (''importerPath'', json_or_undefined (le_importerPath e))] @
     (case le_filePath e of
        None \<Rightarrow> []
      | Some p \<Rightarrow> (if p \<noteq> [] then [(''filePath'', JsonString p)] else [])) @
     (case le_error e of
        None \<Rightarrow> []
      | Some er \<Rightarrow> [(''error'', JsonString (stack er))])"

text \<open>
  The serialization in the specification's words, for a \<open>ConfigDependency\<close>: the id and
  the importer's path, the file path when present, the error's stack when present.
\<close>

definition spec_toJSON :: "config_dependency \<Rightarrow> (string \<times> json_value) list" where
  "spec_toJSON d =
     [(''id'', JsonString (dep_id d)),
      (''importerPath'', json_or_undefined (dep_importerPath d))] @
     (case dep_filePath d of None \<Rightarrow> [] | Some p \<Rightarrow> [(''filePath'', JsonString p)]) @
     (case dep_error d of None \<Rightarrow> [] | Some er \<Rightarrow> [(''error'', JsonString (stack er))])"

section \<open>ConfigArrayFactory: the parser and plugin loaders\<close>

text \<open>
  The factory's fields. The pools are \<open>Map\<close>s from a name to a module; \<open>map_of\<close> is
  \<open>Map.prototype.get\<close>.
\<close>

record factory =
  additionalParserPool :: "(string \<times> module_def) list"
  additionalPluginPool :: "(string \<times> module_def) list"
  cwd :: string

text \<open>
  What the loaders call outside this repository's files: \<open>ModuleResolver.resolve\<close> and
  \<open>require\<close>, which return or throw, \<open>path.join\<close>, and the two functions of \<open>naming\<close>.
  A thrown value is taken to be an \<open>Error\<close>. The debug output is left out.
\<close>

record loader_env =
  ext_resolve :: "string \<Rightarrow> string \<Rightarrow> js_error + string"
  ext_require :: "string \<Rightarrow> js_error + module_def"
  ext_join :: "string \<Rightarrow> string \<Rightarrow> string"
  ext_normalizePackageName :: "string \<Rightarrow> string \<Rightarrow> string"
  ext_getShorthandName :: "string \<Rightarrow> string \<Rightarrow> string"

text \<open>The calls a loader made to the module resolver and to \<open>require\<close>, in order.\<close>

datatype call = Resolve string string | Require string

text \<open>\<open>isFilePath\<close>: the regular expression \<open>^\.{1,2}[/\\]\<close>, or an absolute path.\<close>

definition isFilePath :: "string \<Rightarrow> bool" where
  "isFilePath nameOrPath =
     ((startsWith nameOrPath ''./'' \<or> startsWith nameOrPath [CHR ''.'', CHR 0x5C] \<or>
       startsWith nameOrPath ''../'' \<or> startsWith nameOrPath [CHR ''.'', CHR ''.'', CHR 0x5C]) \<or>
      isAbsolute nameOrPath)"

text \<open>A truthy string: neither \<open>undefined\<close> nor empty.\<close>

definition truthy_string :: "string option \<Rightarrow> bool" where
  "truthy_string x = (case x of None \<Rightarrow> False | Some s \<Rightarrow> s \<noteq> [])"

text \<open>
  \<open>_loadParser\<close>, as in \<open>config-array-factory.js\<close>. The pool it reads is
  \<open>this._additionalPluginPool\<close>, as the source has it. The result is the dependency and
  the calls made. (The other copy of the factory passes the importer's path to the
  resolver as it is, and reads the same pool.)
\<close>

definition loadParser ::
  "loader_env \<Rightarrow> factory \<Rightarrow> string \<Rightarrow> string option \<Rightarrow> string option \<Rightarrow>
   config_dependency \<times> call list" where
  "loadParser ext fac nameOrPath importerPath importerName =
     (case map_of (additionalPluginPool fac) nameOrPath of
        Some parser \<Rightarrow>
          (\<lparr>dep_definition = Some parser, dep_error = None, dep_filePath = importerPath,
            dep_id = nameOrPath, dep_importerName = importerName,
            dep_importerPath = importerPath\<rparr>, [])
      | None \<Rightarrow>
          (let relativeTo = (if truthy_string importerPath then the importerPath
                             else ext_join ext (cwd fac) ''a.js'')
           in case ext_resolve ext nameOrPath relativeTo of
                Inl error \<Rightarrow>
                  (\<lparr>dep_definition = None, dep_error = Some error, dep_filePath = None,
                    dep_id = nameOrPath, dep_importerName = importerName,
                    dep_importerPath = importerPath\<rparr>,
                   [Resolve nameOrPath relativeTo])
              | Inr filePath \<Rightarrow>
                  (case ext_require ext filePath of
                     Inl error \<Rightarrow>
                       (\<lparr>dep_definition = None, dep_error = Some error, dep_filePath = None,
                         dep_id = nameOrPath, dep_importerName = importerName,
                         dep_importerPath = importerPath\<rparr>,
                        [Resolve nameOrPath relativeTo, Require filePath])
                   | Inr loaded \<Rightarrow>
                       (\<lparr>dep_definition = Some loaded, dep_error = None,
                         dep_filePath = Some filePath, dep_id = nameOrPath,
                         dep_importerName = importerName,
                         dep_importerPath = importerPath\<rparr>,
                        [Resolve nameOrPath relativeTo, Require filePath]))))"

text \<open>
  The loader in the specification's words: the additional parser pool is consulted first
  and short-circuits module resolution.
\<close>

definition spec_loadParser_pool_hit ::
  "factory \<Rightarrow> string \<Rightarrow> string option \<Rightarrow> string option \<Rightarrow>
   (config_dependency \<times> call list) option" where
  "spec_loadParser_pool_hit fac nameOrPath importerPath importerName =
     (case map_of (additionalParserPool fac) nameOrPath of
        Some parser \<Rightarrow>
          Some (\<lparr>dep_definition = Some parser, dep_error = None, dep_filePath = importerPath,
                 dep_id = nameOrPath, dep_importerName = importerName,
                 dep_importerPath = importerPath\<rparr>, [])
      | None \<Rightarrow> None)"

text \<open>
  The whitespace of the regular expression \<open>\s\<close>, among the characters of a
  \<^typ>\<open>string\<close>: space, tab, line feed, vertical tab, form feed, carriage return and the
  no-break space.
\<close>

definition is_space :: "char \<Rightarrow> bool" where
  "is_space c =
     (c \<in> set [CHR 0x20, CHR 0x09, CHR 0x0A, CHR 0x0B, CHR 0x0C, CHR 0x0D, CHR 0xA0])"

definition plugin_missing_error :: "js_error \<Rightarrow> string \<Rightarrow> string \<Rightarrow> js_error" where
  "plugin_missing_error error request dir =
     (if code error = Some ''MODULE_NOT_FOUND''
      then error\<lparr>message := ''Failed to load plugin '' @ request @ '': '' @ message error @
                      '' (relative to '' @ dir @ '')'',
                 messageTemplate := Some ''plugin-missing'',
                 messageData := [(''pluginName'', request), (''projectRoot'', dir)]\<rparr>
      else error)"

text \<open>
  \<open>_loadPlugin\<close>. The value returned on whitespace is a plain object with the error, the
  id and the importer's path.
\<close>

definition loadPlugin ::
  "loader_env \<Rightarrow> factory \<Rightarrow> string \<Rightarrow> string option \<Rightarrow> string option \<Rightarrow>
   config_dependency \<times> call list" where
  "loadPlugin ext fac nameOrPath importerPath importerName =
     (let request = (if isFilePath nameOrPath then nameOrPath
                     else ext_normalizePackageName ext nameOrPath ''eslint-plugin'');
          pid = (if isFilePath nameOrPath then nameOrPath
                 else ext_getShorthandName ext request ''eslint-plugin'');
          pooled = (if isFilePath nameOrPath then None
                    else (case map_of (additionalPluginPool fac) request of
                            Some p \<Rightarrow> Some p
                          | None \<Rightarrow> map_of (additionalPluginPool fac) pid))
      in if \<not> isFilePath nameOrPath \<and> (\<exists>c \<in> set nameOrPath. is_space c)
         then (\<lparr>dep_definition = None,
                dep_error = Some ((new_Error (''Whitespace found in plugin name '' @
                    [CHR 0x27] @ nameOrPath @ [CHR 0x27]))
                  \<lparr>messageTemplate := Some ''whitespace-found'',
                   messageData := [(''pluginName'', request)]\<rparr>),
                dep_filePath = None, dep_id = pid, dep_importerName = None,
                dep_importerPath = importerPath\<rparr>, [])
         else (case pooled of
            Some plugin \<Rightarrow>
              (\<lparr>dep_definition = Some plugin, dep_error = None, dep_filePath = importerPath,
                dep_id = pid, dep_importerName = importerName,
                dep_importerPath = importerPath\<rparr>, [])
          | None \<Rightarrow>
              (let relativeTo = ext_join ext (cwd fac) ''a.js''
               in case ext_resolve ext request relativeTo of
                    Inl error \<Rightarrow>
                      (\<lparr>dep_definition = None,
                        dep_error = Some (plugin_missing_error error request (cwd fac)),
                        dep_filePath = None, dep_id = pid, dep_importerName = importerName,
                        dep_importerPath = importerPath\<rparr>,
                       [Resolve request relativeTo])
                  | Inr filePath \<Rightarrow>
                      (case ext_require ext filePath of
                         Inl error \<Rightarrow>
                           (\<lparr>dep_definition = None,
                             dep_error = Some (plugin_missing_error error request (cwd fac)),
                             dep_filePath = None, dep_id = pid,
                             dep_importerName = importerName,
                             dep_importerPath = importerPath\<rparr>,
                            [Resolve request relativeTo, Require filePath])
                       | Inr loaded \<Rightarrow>
                           (\<lparr>dep_definition = Some loaded, dep_error = None,
                             dep_filePath = Some filePath, dep_id = pid,
                             dep_importerName = importerName,
                             dep_importerPath = importerPath\<rparr>,
                            [Resolve request relativeTo, Require filePath])))))"

text \<open>
  \<open>_loadPlugins\<close>: the \<open>reduce\<close> over the names, with the map built so far and the calls
  made so far. \<open>map[plugin.id] = plugin\<close> keeps the place of a key already there.
\<close>

fun loadPlugins_from ::
  "loader_env \<Rightarrow> factory \<Rightarrow> string option \<Rightarrow> string option \<Rightarrow>
   (string \<times> config_dependency) list \<Rightarrow> call list \<Rightarrow> string list \<Rightarrow>
   (js_error + (string \<times> config_dependency) list) \<times> call list" where
  "loadPlugins_from ext fac importerPath importerName acc calls [] = (Inr acc, calls)"
| "loadPlugins_from ext fac importerPath importerName acc calls (name # names) =
     (if isFilePath name
      then (Inl (new_Error ''Plugins array cannot includes file paths.''), calls)
      else (let (plugin, made) = loadPlugin ext fac name importerPath importerName
            in loadPlugins_from ext fac importerPath importerName
                 (AList.update (dep_id plugin) plugin acc) (calls @ made) names))"

definition loadPlugins ::
  "loader_env \<Rightarrow> factory \<Rightarrow> string list \<Rightarrow> string option \<Rightarrow> string option \<Rightarrow>
   (js_error + (string \<times> config_dependency) list) \<times> call list" where
  "loadPlugins ext fac names importerPath importerName =
     loadPlugins_from ext fac importerPath importerName [] [] names"

section \<open>JavaScript values and the heap\<close>

text \<open>
  The values of a configuration: the primitives, and references to objects in a heap.
  Numbers are the integers; a symbol is its description. The objects of a configuration
  are plain objects (their prototype is \<open>Object.prototype\<close>), with their own properties
  in order, and arrays (their prototype is \<open>Array.prototype\<close>), with their elements and
  the named properties they may have been given, as \<open>JSON.parse\<close> and the YAML loader
  make them. They hold no function, no getter and no property keyed by a symbol. In the
  elements of an array \<open>Undefined\<close> marks a hole: an array holds no element that is the
  value \<open>undefined\<close>.
\<close>

datatype val = Undefined | Null | Bool bool | Num int | Str string | Symbol string | Ref nat

datatype obj = Object "(string \<times> val) list" | Array "val list" "(string \<times> val) list"

type_synonym heap = "obj list"

text \<open>
  A reference is an index of the heap, and a new object goes to the end of it. The
  first two objects of a heap are \<open>Object.prototype\<close> and \<open>Array.prototype\<close>, with the
  properties that have been added to them; the properties that the runtime defines on
  them are in the tables below. A reference to no object does not arise in JavaScript;
  \<open>deref\<close> answers \<open>None\<close> there, and the functions below then give no result.
\<close>

definition objectPrototype :: nat where
  "objectPrototype = 0"

definition arrayPrototype :: nat where
  "arrayPrototype = 1"

definition deref :: "heap \<Rightarrow> nat \<Rightarrow> obj option" where
  "deref h a = (if a < length h then Some (h ! a) else None)"

text \<open>
  \<open>isNonNullObject\<close>: the values that are references. Where the source calls it, the
  functions below match the value against \<open>Ref\<close>.
\<close>

fun isNonNullObject :: "val \<Rightarrow> bool" where
  "isNonNullObject (Ref a) = True"
| "isNonNullObject v = False"

text \<open>\<open>Array.isArray\<close>.\<close>

fun isArray :: "heap \<Rightarrow> val \<Rightarrow> bool" where
  "isArray h (Ref a) = (case deref h a of Some (Array xs ps) \<Rightarrow> True | _ \<Rightarrow> False)"
| "isArray h v = False"

text \<open>Decimal numerals: the string of a number, and the index a property key denotes.\<close>

definition digit_char :: "nat \<Rightarrow> char" where
  "digit_char d = ''0123456789'' ! (d mod 10)"

function decimal :: "nat \<Rightarrow> string" where
  "decimal n =
     (if 10 \<le> n then decimal (n div 10) @ [digit_char (n mod 10)] else [digit_char n])"
  by pat_completeness auto
termination
  by (relation "measure id") auto

declare decimal.simps [simp del]

definition decimal_int :: "int \<Rightarrow> string" where
  "decimal_int i = (if 0 \<le> i then decimal (nat i) else CHR ''-'' # decimal (nat (- i)))"

definition digit_value :: "char \<Rightarrow> nat option" where
  "digit_value c =
     map_of
       [(CHR ''0'', 0), (CHR ''1'', 1), (CHR ''2'', 2), (CHR ''3'', 3), (CHR ''4'', 4),
        (CHR ''5'', 5), (CHR ''6'', 6), (CHR ''7'', 7), (CHR ''8'', 8), (CHR ''9'', 9)] c"

fun nat_of_digits :: "nat \<Rightarrow> string \<Rightarrow> nat option" where
  "nat_of_digits n [] = Some n"
| "nat_of_digits n (c # cs) =
     (case digit_value c of None \<Rightarrow> None | Some d \<Rightarrow> nat_of_digits (10 * n + d) cs)"

text \<open>
  A key is an array index when it is the canonical numeral of a number below
  \<open>2\<^sup>3\<^sup>2 - 1\<close>: digits only, and no leading zero but for \<open>0\<close> itself.
\<close>

definition index_of_key :: "string \<Rightarrow> nat option" where
  "index_of_key k =
     (case k of
        [] \<Rightarrow> None
      | c # cs \<Rightarrow>
          (if c = CHR ''0'' \<and> cs \<noteq> [] then None
           else (case nat_of_digits 0 k of
                   None \<Rightarrow> None
                 | Some i \<Rightarrow> (if int i < 4294967295 then Some i else None))))"

text \<open>
  \<open>Object.keys\<close>: the own properties, in the order in which the object lists them; an
  array lists the indices of its elements, the holes left out, before its named
  properties.
\<close>

fun own_keys :: "obj \<Rightarrow> string list" where
  "own_keys (Object ps) = map fst ps"
| "own_keys (Array xs ps) =
     map decimal (filter (\<lambda>i. xs ! i \<noteq> Undefined) [0..<length xs]) @ map fst ps"

text \<open>
  \<open>source[key]\<close> for a key that \<open>Object.keys(source)\<close> has listed: the own property.
\<close>

definition lookup_prop :: "(string \<times> val) list \<Rightarrow> string \<Rightarrow> val" where
  "lookup_prop ps k = (case map_of ps k of None \<Rightarrow> Undefined | Some v \<Rightarrow> v)"

fun get_prop :: "obj \<Rightarrow> string \<Rightarrow> val" where
  "get_prop (Object ps) k = lookup_prop ps k"
| "get_prop (Array xs ps) k =
     (case index_of_key k of
        Some i \<Rightarrow> (if i < length xs then xs ! i else Undefined)
      | None \<Rightarrow> (if k = ''length'' then Num (int (length xs)) else lookup_prop ps k))"

section \<open>Reading a property through the prototype chain\<close>

text \<open>
  What \<open>o[key]\<close> gives: a value, or a function that the runtime defines, of which the
  number of its parameters (its \<open>length\<close>) is kept. The own property of an object, if it
  has one; \<open>None\<close> sends the reader to the prototype.
\<close>

datatype slot = Value val | Builtin nat

fun own_prop :: "obj \<Rightarrow> string \<Rightarrow> val option" where
  "own_prop (Object ps) k = map_of ps k"
| "own_prop (Array xs ps) k =
     (case index_of_key k of
        Some i \<Rightarrow> (if i < length xs \<and> xs ! i \<noteq> Undefined then Some (xs ! i) else None)
      | None \<Rightarrow> (if k = ''length'' then Some (Num (int (length xs))) else map_of ps k))"

text \<open>
  The functions that ECMAScript defines on \<open>Object.prototype\<close> and (in its edition of
  2019) on \<open>Array.prototype\<close>, each with its \<open>length\<close>; \<open>constructor\<close> is \<open>Object\<close> and
  \<open>Array\<close>. \<open>Object.prototype\<close> has the accessor \<open>__proto__\<close> besides, which reads as the
  prototype of the object it is read from.
\<close>

definition object_builtins :: "(string \<times> nat) list" where
  "object_builtins =
     [(''constructor'', 1), (''__defineGetter__'', 2), (''__defineSetter__'', 2),
      (''hasOwnProperty'', 1), (''__lookupGetter__'', 1), (''__lookupSetter__'', 1),
      (''isPrototypeOf'', 1), (''propertyIsEnumerable'', 1), (''toString'', 0),
      (''valueOf'', 0), (''toLocaleString'', 0)]"

definition array_builtins :: "(string \<times> nat) list" where
  "array_builtins =
     [(''constructor'', 1), (''concat'', 1), (''copyWithin'', 2), (''fill'', 1), (''find'', 1),
      (''findIndex'', 1), (''lastIndexOf'', 1), (''pop'', 0), (''push'', 1), (''reverse'', 0),
      (''shift'', 0), (''unshift'', 1), (''slice'', 2), (''sort'', 1), (''splice'', 2),
      (''includes'', 1), (''indexOf'', 1), (''join'', 1), (''keys'', 0), (''entries'', 0),
      (''values'', 0), (''forEach'', 1), (''filter'', 1), (''flat'', 0), (''flatMap'', 1),
      (''map'', 1), (''every'', 1), (''some'', 1), (''reduce'', 1), (''reduceRight'', 1),
      (''toLocaleString'', 0), (''toString'', 0)]"

text \<open>
  What \<open>Object.prototype\<close> gives for a key, to an object whose prototype is \<open>proto\<close>: a
  property added to it comes before the ones the runtime defines.
\<close>

definition object_builtin :: "val \<Rightarrow> string \<Rightarrow> slot option" where
  "object_builtin proto k =
     (if k = ''__proto__'' then Some (Value proto)
      else map_option Builtin (map_of object_builtins k))"

definition added_prop :: "heap \<Rightarrow> nat \<Rightarrow> string \<Rightarrow> val option" where
  "added_prop h a k = (case deref h a of None \<Rightarrow> None | Some ob \<Rightarrow> own_prop ob k)"

definition from_object_prototype :: "heap \<Rightarrow> val \<Rightarrow> string \<Rightarrow> slot option" where
  "from_object_prototype h proto k =
     (case added_prop h objectPrototype k of
        Some v \<Rightarrow> Some (Value v)
      | None \<Rightarrow> object_builtin proto k)"

text \<open>The same for \<open>Array.prototype\<close>, whose prototype is \<open>Object.prototype\<close>.\<close>

definition array_builtin :: "heap \<Rightarrow> val \<Rightarrow> string \<Rightarrow> slot option" where
  "array_builtin h proto k =
     (case map_of array_builtins k of
        Some n \<Rightarrow> Some (Builtin n)
      | None \<Rightarrow> from_object_prototype h proto k)"

definition from_array_prototype :: "heap \<Rightarrow> val \<Rightarrow> string \<Rightarrow> slot option" where
  "from_array_prototype h proto k =
     (case added_prop h arrayPrototype k of
        Some v \<Rightarrow> Some (Value v)
      | None \<Rightarrow> array_builtin h proto k)"

text \<open>
  The property \<open>key\<close> of the object \<open>ob\<close> at the address \<open>a\<close>, if the object or one of
  its prototypes has it: its own property, or else what its prototype gives. \<open>o[key]\<close>
  is \<open>undefined\<close> when there is none; an own property whose value is \<open>undefined\<close> reads
  as \<open>undefined\<close> too.
\<close>

definition inherited_prop :: "heap \<Rightarrow> nat \<Rightarrow> obj \<Rightarrow> string \<Rightarrow> slot option" where
  "inherited_prop h a ob k =
     (if a = objectPrototype then object_builtin Null k
      else if a = arrayPrototype then array_builtin h (Ref objectPrototype) k
      else (case ob of
              Object ps \<Rightarrow> from_object_prototype h (Ref objectPrototype) k
            | Array xs ps \<Rightarrow> from_array_prototype h (Ref arrayPrototype) k))"

definition find_prop :: "heap \<Rightarrow> nat \<Rightarrow> obj \<Rightarrow> string \<Rightarrow> slot option" where
  "find_prop h a ob k =
     (case own_prop ob k of
        Some v \<Rightarrow> Some (Value v)
      | None \<Rightarrow> inherited_prop h a ob k)"

definition slot_or_undefined :: "slot option \<Rightarrow> slot" where
  "slot_or_undefined x = (case x of None \<Rightarrow> Value Undefined | Some y \<Rightarrow> y)"

definition read_prop :: "heap \<Rightarrow> nat \<Rightarrow> obj \<Rightarrow> string \<Rightarrow> slot" where
  "read_prop h a ob k = slot_or_undefined (find_prop h a ob k)"

text \<open>
  \<open>v[key]\<close> for a value \<open>v\<close> that is not \<open>undefined\<close> or \<open>null\<close>, and a key that is \<open>length\<close>
  or \<open>push\<close>: a string has its length, and a function of the runtime has the number of
  its parameters; \<open>String.prototype\<close>, \<open>Number.prototype\<close>, \<open>Boolean.prototype\<close>,
  \<open>Symbol.prototype\<close> and \<open>Function.prototype\<close> have no property of these names, so the
  key is looked up on \<open>Object.prototype\<close>.
\<close>

definition read_slot :: "heap \<Rightarrow> slot \<Rightarrow> string \<Rightarrow> slot option" where
  "read_slot h x k =
     (case x of
        Value (Ref a) \<Rightarrow>
          (case deref h a of None \<Rightarrow> None | Some ob \<Rightarrow> Some (read_prop h a ob k))
      | Value (Str s) \<Rightarrow>
          Some (if k = ''length'' then Value (Num (int (length s)))
                else slot_or_undefined (from_object_prototype h Null k))
      | Builtin n \<Rightarrow>
          Some (if k = ''length'' then Value (Num (int n))
                else slot_or_undefined (from_object_prototype h Null k))
      | _ \<Rightarrow> Some (slot_or_undefined (from_object_prototype h Null k)))"

text \<open>
  The elements that the spread \<open>[...a]\<close> of an array reads, each through the prototype
  chain, and the elements that the spread of \<open>a.slice(1)\<close> reads: \<open>slice\<close> copies the
  properties that the array or its prototypes have, and where it leaves a hole in its
  result the spread reads what \<open>Array.prototype\<close> gives at the index of the hole.
\<close>

definition slot_value :: "slot \<Rightarrow> val" where
  "slot_value x = (case x of Value v \<Rightarrow> v | Builtin n \<Rightarrow> Undefined)"

definition spread :: "heap \<Rightarrow> nat \<Rightarrow> obj \<Rightarrow> nat \<Rightarrow> val list" where
  "spread h a ob n = map (\<lambda>i. slot_value (read_prop h a ob (decimal i))) [0..<n]"

definition spread_slice :: "heap \<Rightarrow> nat \<Rightarrow> obj \<Rightarrow> nat \<Rightarrow> val list" where
  "spread_slice h a ob n =
     map (\<lambda>j. case find_prop h a ob (decimal (Suc j)) of
                 Some x \<Rightarrow> slot_value x
               | None \<Rightarrow>
                   slot_value (slot_or_undefined
                     (from_array_prototype h (Ref arrayPrototype) (decimal j))))
       [0..<n - 1]"

text \<open>
  \<open>o[key] = v\<close>, where \<open>o[key]\<close> reads as \<open>undefined\<close>: the property becomes an own
  property. Writing an element past the end of an array extends it, the elements in
  between being holes. The merge functions write a property only where it reads as
  \<open>undefined\<close>, so the \<open>length\<close> of an array and the accessor \<open>__proto__\<close> are never
  written.
\<close>

fun set_prop :: "obj \<Rightarrow> string \<Rightarrow> val \<Rightarrow> obj" where
  "set_prop (Object ps) k v = Object (AList.update k v ps)"
| "set_prop (Array xs ps) k v =
     (case index_of_key k of
        Some i \<Rightarrow>
          (if i < length xs then Array (xs[i := v]) ps
           else Array (xs @ replicate (i - length xs) Undefined @ [v]) ps)
      | None \<Rightarrow> Array xs (AList.update k v ps))"

section \<open>The merge engine\<close>

text \<open>
  The two tests that \<open>assignWithoutOverwrite\<close> makes on \<open>target[key]\<close>:
  \<open>isNonNullObject(target[key])\<close>, and else \<open>target[key] === void 0\<close>. A function that
  the target inherits is neither an object nor \<open>undefined\<close>.
\<close>

datatype target_test = IsObject nat | IsUndefined | IsOther

definition test_target :: "slot \<Rightarrow> target_test" where
  "test_target x =
     (case x of
        Builtin n \<Rightarrow> IsOther
      | Value v \<Rightarrow> (case v of Ref t \<Rightarrow> IsObject t | Undefined \<Rightarrow> IsUndefined | _ \<Rightarrow> IsOther))"

text \<open>
  \<open>assignWithoutOverwrite(target, source)\<close>, with the loop over the keys of the source as
  a function of its own. The target is an object of the heap, the source any value. The
  first argument bounds the depth of the recursion: \<open>None\<close> is the answer when the source
  nests deeper (a cyclic source never ends in JavaScript either). The keys are read once,
  before the loop; the properties are read from the heap as it is at each turn, the
  one of the target through the prototype chain.
\<close>

fun assignWithoutOverwrite :: "nat \<Rightarrow> heap \<Rightarrow> nat \<Rightarrow> val \<Rightarrow> heap option"
  and assign_loop :: "nat \<Rightarrow> heap \<Rightarrow> nat \<Rightarrow> nat \<Rightarrow> string list \<Rightarrow> heap option" where
  "assignWithoutOverwrite 0 h target (Ref s) = None"
| "assignWithoutOverwrite (Suc fuel) h target (Ref s) =
     (case deref h s of
        None \<Rightarrow> None
      | Some sobj \<Rightarrow> assign_loop fuel h target s (own_keys sobj))"
| "assignWithoutOverwrite fuel h target source = Some h"
| "assign_loop fuel h target s [] = Some h"
| "assign_loop fuel h target s (key # keys) =
     (case deref h target of
        None \<Rightarrow> None
      | Some tobj \<Rightarrow>
          (case deref h s of
             None \<Rightarrow> None
           | Some sobj \<Rightarrow>
               (case (case test_target (read_prop h target tobj key) of
                        IsObject t \<Rightarrow> assignWithoutOverwrite fuel h t (get_prop sobj key)
                      | IsUndefined \<Rightarrow>
                          (case get_prop sobj key of
                             Ref s' \<Rightarrow>
                               assignWithoutOverwrite fuel
                                 ((h @ [if isArray h (Ref s') then Array [] [] else Object []])
                                    [target := set_prop tobj key (Ref (length h))])
                                 (length h) (Ref s')
                           | Undefined \<Rightarrow> Some h
                           | v \<Rightarrow> Some (h[target := set_prop tobj key v]))
                      | IsOther \<Rightarrow> Some h) of
                  None \<Rightarrow> None
                | Some h' \<Rightarrow> assign_loop fuel h' target s keys)))"

text \<open>A \<open>TypeError\<close> of the runtime.\<close>

definition type_error :: "string \<Rightarrow> js_error" where
  "type_error m =
     \<lparr>message = m, stack = ''TypeError: '' @ m, code = None, messageTemplate = None,
      messageData = []\<rparr>"

text \<open>The message of the runtime for a property read from \<open>undefined\<close> or \<open>null\<close>.\<close>

definition cannot_read :: "string \<Rightarrow> string \<Rightarrow> string" where
  "cannot_read property v =
     ''Cannot read property '' @ [CHR 0x27] @ property @ [CHR 0x27] @ '' of '' @ v"

text \<open>
  The length and the elements of a value that \<open>Array.isArray\<close> accepts: \<open>[...a]\<close> and
  \<open>...a.slice(1)\<close>. The method \<open>slice\<close> is the one of the runtime unless the array or
  \<open>Array.prototype\<close> has been given a property of that name, which is not a function.
\<close>

fun array_length :: "heap \<Rightarrow> val \<Rightarrow> nat option" where
  "array_length h (Ref a) =
     (case deref h a of Some (Array xs ps) \<Rightarrow> Some (length xs) | _ \<Rightarrow> None)"
| "array_length h v = None"

fun array_elements :: "heap \<Rightarrow> val \<Rightarrow> val list option" where
  "array_elements h (Ref a) =
     (case deref h a of
        Some (Array xs ps) \<Rightarrow> Some (spread h a (Array xs ps) (length xs))
      | _ \<Rightarrow> None)"
| "array_elements h v = None"

fun slice_options :: "heap \<Rightarrow> val \<Rightarrow> (js_error + val list) option" where
  "slice_options h (Ref a) =
     (case deref h a of
        Some (Array xs ps) \<Rightarrow>
          (case read_prop h a (Array xs ps) ''slice'' of
             Builtin n \<Rightarrow> Some (Inr (spread_slice h a (Array xs ps) (length xs)))
           | Value v \<Rightarrow> Some (Inl (type_error ''sourceDef.slice is not a function'')))
      | _ \<Rightarrow> None)"
| "slice_options h v = None"

text \<open>
  \<open>targetDef.length === 1\<close>, for a \<open>targetDef\<close> that is not \<open>undefined\<close>: reading a property
  of \<open>null\<close> throws.
\<close>

definition length_is_one :: "heap \<Rightarrow> slot \<Rightarrow> (js_error + bool) option" where
  "length_is_one h targetDef =
     (case targetDef of
        Value Undefined \<Rightarrow> Some (Inl (type_error (cannot_read ''length'' ''undefined'')))
      | Value Null \<Rightarrow> Some (Inl (type_error (cannot_read ''length'' ''null'')))
      | _ \<Rightarrow>
          (case read_slot h targetDef ''length'' of
             None \<Rightarrow> None
           | Some x \<Rightarrow> Some (Inr (x = Value (Num 1)))))"

text \<open>
  \<open>targetDef.push(...options)\<close>, for a \<open>targetDef\<close> that is not \<open>undefined\<close> or \<open>null\<close>. The
  only function that the property \<open>push\<close> can be is the one of \<open>Array.prototype\<close>, which
  an array inherits: it appends the options. Any other value is not a function.
\<close>

definition push_options :: "heap \<Rightarrow> slot \<Rightarrow> val list \<Rightarrow> (js_error option \<times> heap) option" where
  "push_options h targetDef options =
     (case read_slot h targetDef ''push'' of
        None \<Rightarrow> None
      | Some (Value v) \<Rightarrow> Some (Some (type_error ''targetDef.push is not a function''), h)
      | Some (Builtin n) \<Rightarrow>
          (case targetDef of
             Value (Ref a) \<Rightarrow>
               (case deref h a of
                  Some (Array xs ps) \<Rightarrow> Some (None, h[a := Array (xs @ options) ps])
                | _ \<Rightarrow> None)
           | _ \<Rightarrow> None))"

text \<open>
  One turn of the loop of \<open>mergeRules\<close>, for the key \<open>key\<close> of the source with the value
  \<open>sourceDef\<close>; \<open>tobj\<close> is the target object as read from the heap. The result is the error
  thrown, if any, and the heap. \<open>target[key]\<close> is read through the prototype chain, so
  a key that the target inherits is not \<open>undefined\<close>.
\<close>

definition merge_rule ::
  "heap \<Rightarrow> nat \<Rightarrow> obj \<Rightarrow> string \<Rightarrow> val \<Rightarrow> (js_error option \<times> heap) option" where
  "merge_rule h target tobj key sourceDef =
     (case read_prop h target tobj key of
        Value Undefined \<Rightarrow>
          Some (None,
            (h @ [Array (case array_elements h sourceDef of
                           Some xs \<Rightarrow> xs
                         | None \<Rightarrow> [sourceDef]) []])
              [target := set_prop tobj key (Ref (length h))])
      | targetDef \<Rightarrow>
          (case length_is_one h targetDef of
             None \<Rightarrow> None
           | Some (Inl e) \<Rightarrow> Some (Some e, h)
           | Some (Inr one) \<Rightarrow>
               (case array_length h sourceDef of
                  Some n \<Rightarrow>
                    (if one \<and> 2 \<le> n
                     then (case slice_options h sourceDef of
                             None \<Rightarrow> None
                           | Some (Inl e) \<Rightarrow> Some (Some e, h)
                           | Some (Inr options) \<Rightarrow> push_options h targetDef options)
                     else Some (None, h))
                | None \<Rightarrow> Some (None, h))))"

fun mergeRules_loop ::
  "heap \<Rightarrow> nat \<Rightarrow> nat \<Rightarrow> string list \<Rightarrow> (js_error option \<times> heap) option" where
  "mergeRules_loop h target s [] = Some (None, h)"
| "mergeRules_loop h target s (key # keys) =
     (case deref h target of
        None \<Rightarrow> None
      | Some tobj \<Rightarrow>
          (case deref h s of
             None \<Rightarrow> None
           | Some sobj \<Rightarrow>
               (case merge_rule h target tobj key (get_prop sobj key) of
                  None \<Rightarrow> None
                | Some (Some e, h') \<Rightarrow> Some (Some e, h')
                | Some (None, h') \<Rightarrow> mergeRules_loop h' target s keys)))"

text \<open>\<open>mergeRules(target, source)\<close>.\<close>

definition mergeRules :: "heap \<Rightarrow> nat \<Rightarrow> val \<Rightarrow> (js_error option \<times> heap) option" where
  "mergeRules h target source =
     (case source of
        Ref s \<Rightarrow>
          (case deref h s of
             None \<Rightarrow> None
           | Some sobj \<Rightarrow> mergeRules_loop h target s (own_keys sobj))
      | _ \<Rightarrow> Some (None, h))"

text \<open>
  What a rule entry of the target reads as: the elements of the array it refers to, when
  the target has an entry of its own and it is an array.
\<close>

definition rule_setting :: "heap \<Rightarrow> nat \<Rightarrow> string \<Rightarrow> val list option" where
  "rule_setting h target key =
     (case deref h target of
        None \<Rightarrow> None
      | Some tobj \<Rightarrow>
          (case get_prop tobj key of
             Ref a \<Rightarrow> (case deref h a of Some (Array xs ps) \<Rightarrow> Some xs | _ \<Rightarrow> None)
           | _ \<Rightarrow> None))"

section \<open>ConfigArray\<close>

text \<open>
  The file holds two versions of the class \<open>ConfigArray\<close>. The first, with the method
  \<open>isRoot\<close>, is the one the tests of the repository run: its \<open>extractConfig\<close> tests its
  argument first, its \<open>mergePlugins\<close> collects the members of the adopted plugins, and its
  \<open>createConfig\<close> validates the elements after the merge. Its functions keep their names
  here. The second, with the getter \<open>root\<close>, has neither the test nor the collection nor
  the validation; its functions are modelled after the first, with the suffix \<open>_root\<close>.
  \<open>getMatchedIndices\<close>, \<open>assignWithoutOverwrite\<close> and \<open>mergeRules\<close> are the same in both.
\<close>

text \<open>
  An element of a config array, as the class \<open>ConfigArrayElement\<close> and the factory make
  it: every property is an own property of the element, so that reading one never goes
  to the prototype. The records and the rules are values of the heap; the parser and
  the plugins are dependencies. \<open>None\<close> is \<open>undefined\<close>, but for the criteria, where it is
  \<open>null\<close>.
\<close>

record config_element =
  e_name :: string
  e_filePath :: string
  e_criteria :: "override_tester option"
  e_env :: val
  e_globals :: val
  e_parser :: "config_dependency option"
  e_parserOptions :: val
  e_plugins :: "(string \<times> config_dependency) list option"
  e_processor :: "string option"
  e_root :: val
  e_rules :: val
  e_settings :: val

text \<open>
  \<open>ExtractedConfig\<close>. Its five records are objects of the heap, which the fields refer
  to; the plugins are kept as a list of pairs, in the order of their adoption.
\<close>

record extracted_config =
  c_env :: nat
  c_globals :: nat
  c_parser :: "config_dependency option"
  c_parserOptions :: nat
  c_plugins :: "(string \<times> config_dependency) list"
  c_processor :: "string option"
  c_rules :: nat
  c_settings :: nat

text \<open>\<open>new ExtractedConfig()\<close>: five empty objects, and no parser and no processor.\<close>

definition new_ExtractedConfig :: "heap \<Rightarrow> extracted_config \<times> heap" where
  "new_ExtractedConfig h =
     (\<lparr>c_env = length h, c_globals = length h + 1, c_parser = None,
       c_parserOptions = length h + 2, c_plugins = [], c_processor = None,
       c_rules = length h + 3, c_settings = length h + 4\<rparr>,
      h @ [Object [], Object [], Object [], Object [], Object []])"

text \<open>
  The state that \<open>extractConfig\<close> works on: the heap, the extracted configs made so far
  (a reference to one is its index), and the internal slots of the array: the cache, from
  a key to a reference, and the three maps of plugin members.
\<close>

record array_state =
  heap :: heap
  configs :: "extracted_config list"
  cache :: "(string \<times> nat) list"
  envMap :: "(string \<times> nat) list"
  processorMap :: "(string \<times> nat) list"
  ruleMap :: "(string \<times> rule_def) list"

text \<open>
  What the array calls outside this repository's files: the match of a \<open>Minimatch\<close>
  pattern (with the options \<open>dot\<close> and \<open>matchBase\<close>) against a path; \<open>path.relative\<close>, and
  the \<open>TypeError\<close> it throws when its second argument is not a string; the \<open>require\<close> of
  a rule named by a string; \<open>validateConfigArrayElement\<close> (which reads the element and
  the two lookups, and throws or not); and what a template literal makes of an object,
  whose conversion to a string may throw, and of a number of more than 21 digits, which
  prints with an exponent.
\<close>

record array_env =
  ext_match :: "string \<Rightarrow> string \<Rightarrow> bool"
  ext_relative :: "string \<Rightarrow> string \<Rightarrow> string"
  ext_relativeError :: "val \<Rightarrow> js_error"
  ext_requireRule :: "string \<Rightarrow> js_error + rule_def"
  ext_validate ::
    "heap \<Rightarrow> config_element \<Rightarrow> (string \<times> rule_def) list \<Rightarrow> (string \<times> nat) list \<Rightarrow>
     js_error option"
  ext_toString :: "heap \<Rightarrow> val \<Rightarrow> js_error + string"

text \<open>\<open>OverrideTester.test\<close>.\<close>

definition test_path :: "array_env \<Rightarrow> override_tester \<Rightarrow> string \<Rightarrow> bool" where
  "test_path ext t filePath =
     (let relativePath = ext_relative ext (basePath t) filePath
      in list_all
           (\<lambda>g. (case g_includes g of
                    None \<Rightarrow> True
                  | Some ms \<Rightarrow> list_ex (\<lambda>m. ext_match ext m relativePath) ms) \<and>
                 (case g_excludes g of
                    None \<Rightarrow> True
                  | Some ms \<Rightarrow> \<not> list_ex (\<lambda>m. ext_match ext m relativePath) ms))
           (patterns t))"

text \<open>\<open>getMatchedIndices\<close>: from the last index down to the first.\<close>

definition getMatchedIndices :: "array_env \<Rightarrow> config_element list \<Rightarrow> string \<Rightarrow> nat list" where
  "getMatchedIndices ext elements filePath =
     filter
       (\<lambda>i. case e_criteria (elements ! i) of
               None \<Rightarrow> True
             | Some t \<Rightarrow> test_path ext t filePath)
       (rev [0..<length elements])"

text \<open>
  \<open>normalizePluginRule\<close>. A rule given as a string is required and normalized again; the
  first argument bounds the number of such steps.
\<close>

fun normalizePluginRule :: "array_env \<Rightarrow> nat \<Rightarrow> rule_def \<Rightarrow> (js_error + rule_def) option" where
  "normalizePluginRule ext 0 (RuleName s) = None"
| "normalizePluginRule ext (Suc fuel) (RuleName s) =
     (case ext_requireRule ext s of
        Inl e \<Rightarrow> Some (Inl e)
      | Inr r \<Rightarrow> normalizePluginRule ext fuel r)"
| "normalizePluginRule ext fuel (RuleFunction f) = Some (Inr (RuleCreate f))"
| "normalizePluginRule ext fuel r = Some (Inr r)"

text \<open>
  \<open>collect\<close>, without a normalize function and with \<open>normalizePluginRule\<close>. \<open>Map.set\<close> keeps
  the place of a key already there.
\<close>

definition prefixed :: "string \<Rightarrow> string \<Rightarrow> string" where
  "prefixed pluginId key = (if pluginId = [] then key else pluginId @ ''/'' @ key)"

fun collect :: "string \<Rightarrow> (string \<times> 'a) list option \<Rightarrow> (string \<times> 'a) list \<Rightarrow> (string \<times> 'a) list" where
  "collect pluginId None m = m"
| "collect pluginId (Some []) m = m"
| "collect pluginId (Some ((key, v) # defs)) m =
     collect pluginId (Some defs) (AList.update (prefixed pluginId key) v m)"

fun collect_rules ::
  "array_env \<Rightarrow> nat \<Rightarrow> string \<Rightarrow> (string \<times> rule_def) list option \<Rightarrow>
   (string \<times> rule_def) list \<Rightarrow> (js_error option \<times> (string \<times> rule_def) list) option" where
  "collect_rules ext fuel pluginId None m = Some (None, m)"
| "collect_rules ext fuel pluginId (Some []) m = Some (None, m)"
| "collect_rules ext fuel pluginId (Some ((key, v) # defs)) m =
     (case normalizePluginRule ext fuel v of
        None \<Rightarrow> None
      | Some (Inl e) \<Rightarrow> Some (Some e, m)
      | Some (Inr r) \<Rightarrow>
          collect_rules ext fuel pluginId (Some defs) (AList.update (prefixed pluginId key) r m))"

text \<open>
  \<open>target[key] === void 0\<close> for the plugins of an extracted config, a plain object given
  as the list of its own properties: the key is neither one of them nor one that
  \<open>Object.prototype\<close> gives.
\<close>

definition plugin_absent ::
  "heap \<Rightarrow> (string \<times> config_dependency) list \<Rightarrow> string \<Rightarrow> bool" where
  "plugin_absent h target key =
     (map_of target key = None \<and>
      slot_or_undefined (from_object_prototype h (Ref objectPrototype) key) = Value Undefined)"

text \<open>
  The loop of \<open>mergePlugins\<close> over the plugins of the source, an object given as the
  list of its properties (with keys that differ). Reading the members of a plugin that
  has neither an error nor a definition throws a \<open>TypeError\<close>. The definition of a plugin
  is taken as a record of its three members, each an own property.
\<close>

fun mergePlugins_loop ::
  "array_env \<Rightarrow> nat \<Rightarrow> (string \<times> config_dependency) list \<Rightarrow>
   (string \<times> config_dependency) list \<Rightarrow> array_state \<Rightarrow>
   ((js_error + (string \<times> config_dependency) list) \<times> array_state) option" where
  "mergePlugins_loop ext fuel [] target s = Some (Inr target, s)"
| "mergePlugins_loop ext fuel ((key, sourceValue) # rest) target s =
     (if plugin_absent (heap s) target key
      then (case dep_error sourceValue of
              Some e \<Rightarrow> Some (Inl e, s)
            | None \<Rightarrow>
                (case dep_definition sourceValue of
                   None \<Rightarrow>
                     Some (Inl (type_error (cannot_read ''environments'' ''null'')), s)
                 | Some d \<Rightarrow>
                     (let s1 = s\<lparr>envMap := collect key (m_environments d) (envMap s),
                                 processorMap := collect key (m_processors d) (processorMap s)\<rparr>
                      in case collect_rules ext fuel key (m_rules d) (ruleMap s1) of
                           None \<Rightarrow> None
                         | Some (Some e, rm) \<Rightarrow> Some (Inl e, s1\<lparr>ruleMap := rm\<rparr>)
                         | Some (None, rm) \<Rightarrow>
                             mergePlugins_loop ext fuel rest
                               (AList.update key sourceValue target) (s1\<lparr>ruleMap := rm\<rparr>))))
      else mergePlugins_loop ext fuel rest target s)"

definition mergePlugins ::
  "array_env \<Rightarrow> nat \<Rightarrow> (string \<times> config_dependency) list \<Rightarrow>
   (string \<times> config_dependency) list option \<Rightarrow> array_state \<Rightarrow>
   ((js_error + (string \<times> config_dependency) list) \<times> array_state) option" where
  "mergePlugins ext fuel target source s =
     (case source of
        None \<Rightarrow> Some (Inr target, s)
      | Some ps \<Rightarrow> mergePlugins_loop ext fuel ps target s)"

text \<open>
  The first two statements of the loop of \<open>createConfig\<close>: the parser and the processor.
  An empty string is no processor.
\<close>

definition adopt_parser :: "extracted_config \<Rightarrow> config_element \<Rightarrow> js_error + extracted_config" where
  "adopt_parser config element =
     (case e_parser element of
        None \<Rightarrow> Inr config
      | Some p \<Rightarrow>
          (if c_parser config = None
           then (case dep_error p of
                   Some e \<Rightarrow> Inl e
                 | None \<Rightarrow> Inr (config\<lparr>c_parser := Some p\<rparr>))
           else Inr config))"

definition adopt_processor :: "extracted_config \<Rightarrow> config_element \<Rightarrow> extracted_config" where
  "adopt_processor config element =
     (if \<not> truthy_string (c_processor config) \<and> truthy_string (e_processor element)
      then config\<lparr>c_processor := e_processor element\<rparr>
      else config)"

text \<open>
  The four calls of \<open>assignWithoutOverwrite\<close> in the loop of \<open>createConfig\<close>, for the
  environments, the globals, the parser options and the settings.
\<close>

definition assign_records :: "nat \<Rightarrow> heap \<Rightarrow> extracted_config \<Rightarrow> config_element \<Rightarrow> heap option" where
  "assign_records fuel h config element =
     (case assignWithoutOverwrite fuel h (c_env config) (e_env element) of
        None \<Rightarrow> None
      | Some h1 \<Rightarrow>
          (case assignWithoutOverwrite fuel h1 (c_globals config) (e_globals element) of
             None \<Rightarrow> None
           | Some h2 \<Rightarrow>
               (case assignWithoutOverwrite fuel h2 (c_parserOptions config)
                       (e_parserOptions element) of
                  None \<Rightarrow> None
                | Some h3 \<Rightarrow>
                    assignWithoutOverwrite fuel h3 (c_settings config) (e_settings element))))"

text \<open>
  One turn of the first loop of \<open>createConfig\<close>. The result is the error thrown or the
  config, and the state as the turn left it; \<open>None\<close> when the bound on the recursion was
  met.
\<close>

definition merge_element ::
  "array_env \<Rightarrow> nat \<Rightarrow> config_element \<Rightarrow> extracted_config \<Rightarrow> array_state \<Rightarrow>
   ((js_error + extracted_config) \<times> array_state) option" where
  "merge_element ext fuel element config s =
     (case adopt_parser config element of
        Inl e \<Rightarrow> Some (Inl e, s)
      | Inr config1 \<Rightarrow>
          (let config2 = adopt_processor config1 element
           in case assign_records fuel (heap s) config2 element of
                None \<Rightarrow> None
              | Some h \<Rightarrow>
                  (case mergePlugins ext fuel (c_plugins config2) (e_plugins element)
                          (s\<lparr>heap := h\<rparr>) of
                     None \<Rightarrow> None
                   | Some (Inl e, s1) \<Rightarrow> Some (Inl e, s1)
                   | Some (Inr plugins, s1) \<Rightarrow>
                       (case mergeRules (heap s1) (c_rules config2) (e_rules element) of
                          None \<Rightarrow> None
                        | Some (Some e, h') \<Rightarrow> Some (Inl e, s1\<lparr>heap := h'\<rparr>)
                        | Some (None, h') \<Rightarrow>
                            Some (Inr (config2\<lparr>c_plugins := plugins\<rparr>), s1\<lparr>heap := h'\<rparr>)))))"

text \<open>
  The two loops of \<open>createConfig\<close> over the indices. For an index that the array does
  not have the element is \<open>undefined\<close>, and the first property read from it throws a
  \<open>TypeError\<close>; the indices that \<open>extractConfig\<close> passes are all in the array.
\<close>

fun merge_elements ::
  "array_env \<Rightarrow> nat \<Rightarrow> config_element list \<Rightarrow> nat list \<Rightarrow> extracted_config \<Rightarrow>
   array_state \<Rightarrow> ((js_error + extracted_config) \<times> array_state) option" where
  "merge_elements ext fuel elements [] config s = Some (Inr config, s)"
| "merge_elements ext fuel elements (index # indices) config s =
     (if index < length elements
      then (case merge_element ext fuel (elements ! index) config s of
              None \<Rightarrow> None
            | Some (Inl e, s') \<Rightarrow> Some (Inl e, s')
            | Some (Inr config', s') \<Rightarrow> merge_elements ext fuel elements indices config' s')
      else Some (Inl (type_error
                   (cannot_read
                      (if c_parser config = None then ''parser''
                       else if \<not> truthy_string (c_processor config) then ''processor''
                       else ''env'')
                      ''undefined'')), s))"

fun validate_elements ::
  "array_env \<Rightarrow> config_element list \<Rightarrow> nat list \<Rightarrow> array_state \<Rightarrow> js_error option" where
  "validate_elements ext elements [] s = None"
| "validate_elements ext elements (index # indices) s =
     (case ext_validate ext (heap s) (elements ! index) (ruleMap s) (envMap s) of
        Some e \<Rightarrow> Some e
      | None \<Rightarrow> validate_elements ext elements indices s)"

definition createConfig ::
  "array_env \<Rightarrow> nat \<Rightarrow> config_element list \<Rightarrow> nat list \<Rightarrow> array_state \<Rightarrow>
   ((js_error + extracted_config) \<times> array_state) option" where
  "createConfig ext fuel elements indices s =
     (case merge_elements ext fuel elements indices (fst (new_ExtractedConfig (heap s)))
             (s\<lparr>heap := snd (new_ExtractedConfig (heap s))\<rparr>) of
        None \<Rightarrow> None
      | Some (Inl e, s') \<Rightarrow> Some (Inl e, s')
      | Some (Inr config, s') \<Rightarrow>
          (case validate_elements ext elements indices s' of
             Some e \<Rightarrow> Some (Inl e, s')
           | None \<Rightarrow> Some (Inr config, s')))"

text \<open>The cache key: \<open>indices.join(",")\<close>.\<close>

fun join_indices :: "nat list \<Rightarrow> string" where
  "join_indices [] = []"
| "join_indices [i] = decimal i"
| "join_indices (i # j # js) = decimal i @ '','' @ join_indices (j # js)"

text \<open>
  The string of a value in a template literal, or the \<open>TypeError\<close> that the conversion
  throws: a symbol has no string, and an object may have none.
\<close>

fun template_string :: "array_env \<Rightarrow> heap \<Rightarrow> val \<Rightarrow> js_error + string" where
  "template_string ext h Undefined = Inr ''undefined''"
| "template_string ext h Null = Inr ''null''"
| "template_string ext h (Bool b) = Inr (if b then ''true'' else ''false'')"
| "template_string ext h (Num n) =
     (if \<bar>n\<bar> < 10 ^ 21 then Inr (decimal_int n) else ext_toString ext h (Num n))"
| "template_string ext h (Str s) = Inr s"
| "template_string ext h (Symbol d) =
     Inl (type_error ''Cannot convert a Symbol value to a string'')"
| "template_string ext h (Ref a) = ext_toString ext h (Ref a)"

text \<open>
  What the \<open>throw\<close> statement at the head of \<open>extractConfig\<close> throws: the error with the
  message, or the error of the conversion, which comes first.
\<close>

definition filePath_message :: "string \<Rightarrow> string" where
  "filePath_message t =
     [CHR 0x27] @ ''filePath'' @ [CHR 0x27] @ '' should be an absolute path, but got '' @ t @ ''.''"

definition invalid_filePath_error :: "array_env \<Rightarrow> heap \<Rightarrow> val \<Rightarrow> js_error" where
  "invalid_filePath_error ext h v =
     (case template_string ext h v of
        Inl e \<Rightarrow> e
      | Inr t \<Rightarrow> new_Error (filePath_message t))"

text \<open>
  Whether the argument passes the test at the head of \<open>extractConfig\<close>: it is a string
  and an absolute path.
\<close>

fun absolute_path_argument :: "val \<Rightarrow> string option" where
  "absolute_path_argument (Str p) = (if isAbsolute p then Some p else None)"
| "absolute_path_argument v = None"

text \<open>
  \<open>ConfigArray.extractConfig\<close>. The result is the error thrown or the reference to the
  extracted config, and the state after the call.
\<close>

definition extractConfig ::
  "array_env \<Rightarrow> nat \<Rightarrow> config_element list \<Rightarrow> array_state \<Rightarrow> val \<Rightarrow>
   ((js_error + nat) \<times> array_state) option" where
  "extractConfig ext fuel elements s filePath =
     (case absolute_path_argument filePath of
        None \<Rightarrow> Some (Inl (invalid_filePath_error ext (heap s) filePath), s)
      | Some p \<Rightarrow>
          (let indices = getMatchedIndices ext elements p;
               cacheKey = join_indices indices
           in case map_of (cache s) cacheKey of
                Some c \<Rightarrow> Some (Inr c, s)
              | None \<Rightarrow>
                  (case createConfig ext fuel elements indices s of
                     None \<Rightarrow> None
                   | Some (Inl e, s') \<Rightarrow> Some (Inl e, s')
                   | Some (Inr config, s') \<Rightarrow>
                       Some (Inr (length (configs s')),
                             s'\<lparr>configs := configs s' @ [config],
                                cache := AList.update cacheKey (length (configs s')) (cache s')\<rparr>))))"

text \<open>The records and the rules of an element.\<close>

definition element_values :: "config_element \<Rightarrow> val list" where
  "element_values e = [e_env e, e_globals e, e_parserOptions e, e_settings e, e_rules e]"

text \<open>
  A heap as the runtime has them: the two prototypes are there, and every reference
  held by an object, or by an element, is to an object of the heap.
\<close>

fun val_in_heap :: "heap \<Rightarrow> val \<Rightarrow> bool" where
  "val_in_heap h (Ref a) = (a < length h)"
| "val_in_heap h v = True"

definition heap_closed :: "heap \<Rightarrow> bool" where
  "heap_closed h = list_all (\<lambda>ob. list_all (val_in_heap h) (case ob of
       Object ps \<Rightarrow> map snd ps | Array xs ps \<Rightarrow> xs @ map snd ps)) h"

definition runtime_heap :: "heap \<Rightarrow> bool" where
  "runtime_heap h =
     ((case deref h objectPrototype of Some (Object ps) \<Rightarrow> True | _ \<Rightarrow> False) \<and>
      (case deref h arrayPrototype of Some (Array xs ps) \<Rightarrow> True | _ \<Rightarrow> False) \<and>
      heap_closed h)"

definition elements_in_heap :: "heap \<Rightarrow> config_element list \<Rightarrow> bool" where
  "elements_in_heap h elements =
     list_all (\<lambda>e. list_all (val_in_heap h) (element_values e)) elements"

text \<open>
  The states an array goes through: it starts with an empty cache and empty maps, on a
  heap of the runtime that holds the records of its elements, and each call of
  \<open>extractConfig\<close> that gives a result leads to the next state.
\<close>

inductive reachable :: "array_env \<Rightarrow> config_element list \<Rightarrow> array_state \<Rightarrow> bool"
  for ext :: array_env and elements :: "config_element list" where
  reachable_init:
    "runtime_heap h \<Longrightarrow> elements_in_heap h elements \<Longrightarrow>
     reachable ext elements
       \<lparr>heap = h, configs = [], cache = [], envMap = [], processorMap = [], ruleMap = []\<rparr>"
| reachable_step:
    "reachable ext elements s \<Longrightarrow>
     extractConfig ext fuel elements s filePath = Some (r, s') \<Longrightarrow>
     reachable ext elements s'"

text \<open>The states that follow a state after any number of calls.\<close>

inductive later_state ::
  "array_env \<Rightarrow> config_element list \<Rightarrow> array_state \<Rightarrow> array_state \<Rightarrow> bool"
  for ext :: array_env and elements :: "config_element list" where
  later_refl: "later_state ext elements s s"
| later_step:
    "later_state ext elements s s1 \<Longrightarrow>
     extractConfig ext fuel elements s1 filePath = Some (r, s2) \<Longrightarrow>
     later_state ext elements s s2"

section \<open>The second version of ConfigArray\<close>

text \<open>
  \<open>OverrideTester.test\<close> and \<open>getMatchedIndices\<close> for an argument that may be any value,
  as the \<open>extractConfig\<close> of the second version passes it on: \<open>path.relative\<close> throws when
  it is not a string, at the first element with criteria that the loop comes to.
\<close>

definition test_value :: "array_env \<Rightarrow> override_tester \<Rightarrow> val \<Rightarrow> js_error + bool" where
  "test_value ext t filePath =
     (case filePath of
        Str p \<Rightarrow> Inr (test_path ext t p)
      | _ \<Rightarrow> Inl (ext_relativeError ext filePath))"

fun getMatchedIndices_loop ::
  "array_env \<Rightarrow> config_element list \<Rightarrow> val \<Rightarrow> nat \<Rightarrow> js_error + nat list" where
  "getMatchedIndices_loop ext elements filePath 0 = Inr []"
| "getMatchedIndices_loop ext elements filePath (Suc i) =
     (case (case e_criteria (elements ! i) of
              None \<Rightarrow> Inr True
            | Some t \<Rightarrow> test_value ext t filePath) of
        Inl e \<Rightarrow> Inl e
      | Inr matched \<Rightarrow>
          (case getMatchedIndices_loop ext elements filePath i of
             Inl e \<Rightarrow> Inl e
           | Inr indices \<Rightarrow> Inr (if matched then i # indices else indices)))"

definition getMatchedIndices_root ::
  "array_env \<Rightarrow> config_element list \<Rightarrow> val \<Rightarrow> js_error + nat list" where
  "getMatchedIndices_root ext elements filePath =
     getMatchedIndices_loop ext elements filePath (length elements)"

text \<open>\<open>mergePlugins\<close> of the second version: it adopts the plugins and collects nothing.\<close>

fun mergePlugins_loop_root ::
  "heap \<Rightarrow> (string \<times> config_dependency) list \<Rightarrow> (string \<times> config_dependency) list \<Rightarrow>
   js_error + (string \<times> config_dependency) list" where
  "mergePlugins_loop_root h [] target = Inr target"
| "mergePlugins_loop_root h ((key, sourceValue) # rest) target =
     (if plugin_absent h target key
      then (case dep_error sourceValue of
              Some e \<Rightarrow> Inl e
            | None \<Rightarrow> mergePlugins_loop_root h rest (AList.update key sourceValue target))
      else mergePlugins_loop_root h rest target)"

definition mergePlugins_root ::
  "heap \<Rightarrow> (string \<times> config_dependency) list \<Rightarrow>
   (string \<times> config_dependency) list option \<Rightarrow> js_error + (string \<times> config_dependency) list" where
  "mergePlugins_root h target source =
     (case source of
        None \<Rightarrow> Inr target
      | Some ps \<Rightarrow> mergePlugins_loop_root h ps target)"

text \<open>One turn of the loop of \<open>createConfig\<close>, the loop, and \<open>createConfig\<close>.\<close>

definition merge_element_root ::
  "nat \<Rightarrow> config_element \<Rightarrow> extracted_config \<Rightarrow> array_state \<Rightarrow>
   ((js_error + extracted_config) \<times> array_state) option" where
  "merge_element_root fuel element config s =
     (case adopt_parser config element of
        Inl e \<Rightarrow> Some (Inl e, s)
      | Inr config1 \<Rightarrow>
          (let config2 = adopt_processor config1 element
           in case assign_records fuel (heap s) config2 element of
                None \<Rightarrow> None
              | Some h \<Rightarrow>
                  (case mergePlugins_root h (c_plugins config2) (e_plugins element) of
                     Inl e \<Rightarrow> Some (Inl e, s\<lparr>heap := h\<rparr>)
                   | Inr plugins \<Rightarrow>
                       (case mergeRules h (c_rules config2) (e_rules element) of
                          None \<Rightarrow> None
                        | Some (Some e, h') \<Rightarrow> Some (Inl e, s\<lparr>heap := h'\<rparr>)
                        | Some (None, h') \<Rightarrow>
                            Some (Inr (config2\<lparr>c_plugins := plugins\<rparr>), s\<lparr>heap := h'\<rparr>)))))"

fun merge_elements_root ::
  "nat \<Rightarrow> config_element list \<Rightarrow> nat list \<Rightarrow> extracted_config \<Rightarrow> array_state \<Rightarrow>
   ((js_error + extracted_config) \<times> array_state) option" where
  "merge_elements_root fuel elements [] config s = Some (Inr config, s)"
| "merge_elements_root fuel elements (index # indices) config s =
     (if index < length elements
      then (case merge_element_root fuel (elements ! index) config s of
              None \<Rightarrow> None
            | Some (Inl e, s') \<Rightarrow> Some (Inl e, s')
            | Some (Inr config', s') \<Rightarrow> merge_elements_root fuel elements indices config' s')
      else Some (Inl (type_error
                   (cannot_read
                      (if c_parser config = None then ''parser''
                       else if \<not> truthy_string (c_processor config) then ''processor''
                       else ''env'')
                      ''undefined'')), s))"

definition createConfig_root ::
  "nat \<Rightarrow> config_element list \<Rightarrow> nat list \<Rightarrow> array_state \<Rightarrow>
   ((js_error + extracted_config) \<times> array_state) option" where
  "createConfig_root fuel elements indices s =
     merge_elements_root fuel elements indices (fst (new_ExtractedConfig (heap s)))
       (s\<lparr>heap := snd (new_ExtractedConfig (heap s))\<rparr>)"

text \<open>
  \<open>ConfigArray.extractConfig\<close> of the second version: the argument goes to
  \<open>getMatchedIndices\<close> as it is.
\<close>

definition extractConfig_root ::
  "array_env \<Rightarrow> nat \<Rightarrow> config_element list \<Rightarrow> array_state \<Rightarrow> val \<Rightarrow>
   ((js_error + nat) \<times> array_state) option" where
  "extractConfig_root ext fuel elements s filePath =
     (case getMatchedIndices_root ext elements filePath of
        Inl e \<Rightarrow> Some (Inl e, s)
      | Inr indices \<Rightarrow>
          (let cacheKey = join_indices indices
           in case map_of (cache s) cacheKey of
                Some c \<Rightarrow> Some (Inr c, s)
              | None \<Rightarrow>
                  (case createConfig_root fuel elements indices s of
                     None \<Rightarrow> None
                   | Some (Inl e, s') \<Rightarrow> Some (Inl e, s')
                   | Some (Inr config, s') \<Rightarrow>
                       Some (Inr (length (configs s')),
                             s'\<lparr>configs := configs s' @ [config],
                                cache := AList.update cacheKey (length (configs s')) (cache s')\<rparr>))))"

section \<open>Notions for the statements\<close>

text \<open>
  An extracted config with nothing in it: the five records are empty objects, and there
  is no parser, no processor and no plugin.
\<close>

definition empty_config :: "heap \<Rightarrow> extracted_config \<Rightarrow> bool" where
  "empty_config h config =
     (deref h (c_env config) = Some (Object []) \<and>
      deref h (c_globals config) = Some (Object []) \<and>
      deref h (c_parserOptions config) = Some (Object []) \<and>
      deref h (c_settings config) = Some (Object []) \<and>
      deref h (c_rules config) = Some (Object []) \<and>
      c_plugins config = [] \<and> c_parser config = None \<and> c_processor config = None)"

text \<open>
  The error that the loop of \<open>createConfig\<close> meets at its first turn, if any: the load
  error of the parser of the first matched element.
\<close>

definition first_parser_error :: "config_element list \<Rightarrow> nat list \<Rightarrow> js_error option" where
  "first_parser_error elements indices =
     (case indices of
        [] \<Rightarrow> None
      | index # rest \<Rightarrow>
          (if index < length elements
           then (case e_parser (elements ! index) of None \<Rightarrow> None | Some p \<Rightarrow> dep_error p)
           else None))"

section \<open>The value of a configuration record\<close>

text \<open>
  The value that a value of the heap stands for, read through the references down to a
  given depth: two values are value-equal when they read the same at every depth.
\<close>

datatype js_tree =
  TreeUndefined | TreeNull | TreeBool bool | TreeNum int | TreeStr string | TreeSymbol string
  | TreeObject "(string \<times> js_tree) list"
  | TreeArray "js_tree list" "(string \<times> js_tree) list"
  | TreeCut

fun deep_value :: "nat \<Rightarrow> heap \<Rightarrow> val \<Rightarrow> js_tree" where
  "deep_value k h Undefined = TreeUndefined"
| "deep_value k h Null = TreeNull"
| "deep_value k h (Bool b) = TreeBool b"
| "deep_value k h (Num n) = TreeNum n"
| "deep_value k h (Str s) = TreeStr s"
| "deep_value k h (Symbol d) = TreeSymbol d"
| "deep_value 0 h (Ref a) = TreeCut"
| "deep_value (Suc k) h (Ref a) =
     (case deref h a of
        None \<Rightarrow> TreeCut
      | Some (Object ps) \<Rightarrow> TreeObject (map (\<lambda>p. (fst p, deep_value k h (snd p))) ps)
      | Some (Array xs ps) \<Rightarrow>
          TreeArray (map (deep_value k h) xs) (map (\<lambda>p. (fst p, deep_value k h (snd p))) ps))"

section \<open>Regions of the heap\<close>

text \<open>
  The references an object holds, and a region of the heap that is closed: it has the
  two prototypes, and every object of the region exists and refers to objects of the
  region only. These are notions of the proofs, not of the program.
\<close>

fun obj_vals :: "obj \<Rightarrow> val set" where
  "obj_vals (Object ps) = snd ` set ps"
| "obj_vals (Array xs ps) = set xs \<union> snd ` set ps"

definition refs_of :: "obj \<Rightarrow> nat set" where
  "refs_of ob = {a. Ref a \<in> obj_vals ob}"

definition closed_region :: "nat set \<Rightarrow> heap \<Rightarrow> bool" where
  "closed_region F h =
     (objectPrototype \<in> F \<and> arrayPrototype \<in> F \<and>
      (\<forall>a \<in> F. a < length h \<and> refs_of (h ! a) \<subseteq> F))"

text \<open>
  What a run that writes inside the region \<open>F\<close> only leaves behind: the heap has grown,
  the region with the new objects is closed, and the objects outside the region are as
  they were.
\<close>

definition region_step :: "nat set \<Rightarrow> heap \<Rightarrow> heap \<Rightarrow> bool" where
  "region_step F h h' =
     (length h \<le> length h' \<and>
      closed_region (F \<union> {length h..<length h'}) h' \<and>
      (\<forall>a. a < length h \<and> a \<notin> F \<longrightarrow> h' ! a = h ! a))"

text \<open>The five records of an extracted config, and two configs with the same records.\<close>

definition records :: "extracted_config \<Rightarrow> nat set" where
  "records c = {c_env c, c_globals c, c_parserOptions c, c_settings c, c_rules c}"

definition same_records :: "extracted_config \<Rightarrow> extracted_config \<Rightarrow> bool" where
  "same_records c c' =
     (c_env c' = c_env c \<and> c_globals c' = c_globals c \<and>
      c_parserOptions c' = c_parserOptions c \<and> c_rules c' = c_rules c \<and>
      c_settings c' = c_settings c)"

text \<open>The objects that the elements of an array refer to.\<close>

definition element_refs :: "config_element list \<Rightarrow> nat set" where
  "element_refs elements = {a. \<exists>e \<in> set elements. Ref a \<in> set (element_values e)}"

text \<open>
  A set of objects that nothing refers to: no object of the heap and no element, and
  neither prototype is among them.
\<close>

definition unreferenced :: "config_element list \<Rightarrow> heap \<Rightarrow> nat set \<Rightarrow> bool" where
  "unreferenced elements h E =
     (objectPrototype \<notin> E \<and> arrayPrototype \<notin> E \<and> element_refs elements \<inter> E = {} \<and>
      (\<forall>a < length h. refs_of (h ! a) \<inter> E = {}))"

text \<open>
  The records that must stay as they are: those of the extracted config that the cache
  holds under the empty key. And what holds of the heap in every state an array
  reaches: it has the prototypes; the references of its objects and of the elements are
  to objects of the heap; and nothing refers to the records that must stay.
\<close>

definition kept_records :: "array_state \<Rightarrow> nat set" where
  "kept_records s =
     (case map_of (cache s) [] of None \<Rightarrow> {} | Some c \<Rightarrow> records (configs s ! c))"

definition heap_inv :: "config_element list \<Rightarrow> heap \<Rightarrow> nat set \<Rightarrow> bool" where
  "heap_inv elements h E =
     (objectPrototype < length h \<and> arrayPrototype < length h \<and>
      (\<forall>a < length h. refs_of (h ! a) \<subseteq> {..<length h}) \<and>
      element_refs elements \<subseteq> {..<length h} \<and> E \<subseteq> {..<length h} \<and>
      unreferenced elements h E)"

text \<open>
  What holds of the state in every state an array reaches: an entry of the cache refers
  to an extracted config that exists, and its key is the joined indices of a sequence
  whose first parser loaded; the heap is as above; and the entry under the empty key is
  an empty config.
\<close>

definition cache_inv :: "config_element list \<Rightarrow> array_state \<Rightarrow> bool" where
  "cache_inv elements s =
     ((\<forall>k c. map_of (cache s) k = Some c \<longrightarrow> c < length (configs s)) \<and>
      (\<forall>k c. map_of (cache s) k = Some c \<longrightarrow>
         (\<exists>indices. k = join_indices indices \<and> first_parser_error elements indices = None)) \<and>
      heap_inv elements (heap s) (kept_records s) \<and>
      (\<forall>c. map_of (cache s) [] = Some c \<longrightarrow> empty_config (heap s) (configs s ! c)))"

section \<open>An example array\<close>

text \<open>
  Collaborators for the examples: a pattern \<open>*suffix\<close> matches the paths that end with
  the suffix, the relative path is the path itself, no rule is found by \<open>require\<close>, the
  validator accepts every element, \<open>path.relative\<close> throws the same error for every
  argument that is not a string, and an object prints as \<open>[object Object]\<close>.
\<close>

definition example_env :: array_env where
  "example_env =
     \<lparr>ext_match = (\<lambda>pattern path. startsWith pattern ''*'' \<and>
                      startsWith (rev path) (rev (tl pattern))),
      ext_relative = (\<lambda>base path. path),
      ext_relativeError =
        (\<lambda>v. type_error ''Path must be a string.''),
      ext_requireRule = (\<lambda>name. Inl (new_Error (''Cannot find module '' @ name))),
      ext_validate = (\<lambda>h element rules envs. None),
      ext_toString = (\<lambda>h v. Inr ''[object Object]'')\<rparr>"

text \<open>
  The heap of a runtime that has just started: the two prototypes, with nothing added
  to them. And a fresh array on a heap \<open>h\<close>: nothing cached, nothing collected.
\<close>

definition pristine_heap :: heap where
  "pristine_heap = [Object [], Array [] []]"

definition initial_state :: "heap \<Rightarrow> array_state" where
  "initial_state h =
     \<lparr>heap = h, configs = [], cache = [], envMap = [], processorMap = [], ruleMap = []\<rparr>"

text \<open>An element with nothing set, and a dependency that failed to load.\<close>

definition empty_element :: config_element where
  "empty_element =
     \<lparr>e_name = '''', e_filePath = '''', e_criteria = None, e_env = Undefined,
      e_globals = Undefined, e_parser = None, e_parserOptions = Undefined, e_plugins = None,
      e_processor = None, e_root = Undefined, e_rules = Undefined, e_settings = Undefined\<rparr>"

definition failed_dependency :: "string \<Rightarrow> config_dependency" where
  "failed_dependency m =
     \<lparr>dep_definition = None, dep_error = Some (new_Error m), dep_filePath = None,
      dep_id = ''p'', dep_importerName = None, dep_importerPath = None\<rparr>"


text \<open>
  A heap with the records of two elements, in the order a program would make them:
  \<open>{ env: { browser: true }, parserOptions: { ecmaFeatures: { jsx: true } },
  rules: { r: [1, "n", "u"] } }\<close> and \<open>{ env: { node: null },
  parserOptions: { ecmaFeatures: { globalReturn: true } }, rules: { r: "error" } }\<close>.
\<close>

definition example_heap :: heap where
  "example_heap =
     pristine_heap @
     [Array [Num 1, Str ''n'', Str ''u''] [],
      Object [(''r'', Ref 2)],
      Object [(''browser'', Bool True)],
      Object [(''jsx'', Bool True)],
      Object [(''ecmaFeatures'', Ref 5)],
      Object [(''r'', Str ''error'')],
      Object [(''node'', Null)],
      Object [(''globalReturn'', Bool True)],
      Object [(''ecmaFeatures'', Ref 9)]]"

text \<open>
  The array of the two elements and a third one, for the files \<open>*.ts\<close> only, whose parser
  failed to load.
\<close>

definition ts_element :: config_element where
  "ts_element =
     empty_element
       \<lparr>e_criteria := Some \<lparr>patterns = [\<lparr>g_includes = Some [''*.ts''], g_excludes = None\<rparr>],
                             basePath = ''/''\<rparr>,
        e_parser := Some (failed_dependency ''Failed to load a parser.'')\<rparr>"

definition example_elements :: "config_element list" where
  "example_elements =
     [empty_element\<lparr>e_env := Ref 4, e_parserOptions := Ref 6, e_rules := Ref 3\<rparr>,
      empty_element\<lparr>e_env := Ref 8, e_parserOptions := Ref 10, e_rules := Ref 7\<rparr>,
      ts_element]"

text \<open>The state after the config for \<open>/src/a.js\<close> has been extracted from that array.\<close>

definition example_config :: extracted_config where
  "example_config =
     \<lparr>c_env = 11, c_globals = 12, c_parser = None, c_parserOptions = 13, c_plugins = [],
      c_processor = None, c_rules = 14, c_settings = 15\<rparr>"

definition example_result :: array_state where
  "example_result =
     \<lparr>heap = example_heap @
        [Object [(''node'', Null), (''browser'', Bool True)],
         Object [],
         Object [(''ecmaFeatures'', Ref 16)],
         Object [(''r'', Ref 17)],
         Object [],
         Object [(''globalReturn'', Bool True), (''jsx'', Bool True)],
         Array [Str ''error'', Str ''n'', Str ''u''] []],
      configs = [example_config],
      cache = [(''1,0'', 0)],
      envMap = [], processorMap = [], ruleMap = []\<rparr>"

text \<open>
  The state after a later call for \<open>/src/x.ts\<close>, which all three elements match, has
  thrown the parser's error: the five objects of the abandoned config are in the heap.
\<close>

definition example_after_throw :: array_state where
  "example_after_throw =
     example_result\<lparr>heap := heap example_result @
                       [Object [], Object [], Object [], Object [], Object []]\<rparr>"


section \<open>Configurations with keys that the prototypes have\<close>

text \<open>
  The rules \<open>{ "constructor": ["error", "always"] }\<close> of one element, and the rules
  \<open>{ "toString": "error", "semi": "error" }\<close> of another.
\<close>

definition constructor_heap :: heap where
  "constructor_heap =
     pristine_heap @
     [Array [Str ''error'', Str ''always''] [],
      Object [(''constructor'', Ref 2)]]"

definition constructor_elements :: "config_element list" where
  "constructor_elements = [empty_element\<lparr>e_rules := Ref 3\<rparr>]"

definition toString_heap :: heap where
  "toString_heap =
     pristine_heap @ [Object [(''toString'', Str ''error''), (''semi'', Str ''error'')]]"

definition toString_elements :: "config_element list" where
  "toString_elements = [empty_element\<lparr>e_rules := Ref 2\<rparr>]"

text \<open>
  Two elements as \<open>JSON.parse\<close> makes them. The second, of the higher precedence, is
  \<open>{ "settings": { "__proto__": { "semi": ["a"] } },
  "rules": { "semi": ["error", { "omitLastInOneLineBlock": true }] } }\<close>, where
  \<open>__proto__\<close> is an own property of the settings; the first is
  \<open>{ "settings": { "semi": ["b", { "added": 1 }] } }\<close>.
\<close>

definition proto_heap :: heap where
  "proto_heap =
     pristine_heap @
     [Array [Str ''a''] [],
      Object [(''semi'', Ref 2)],
      Object [(''__proto__'', Ref 3)],
      Object [(''omitLastInOneLineBlock'', Bool True)],
      Array [Str ''error'', Ref 5] [],
      Object [(''semi'', Ref 6)],
      Object [(''added'', Num 1)],
      Array [Str ''b'', Ref 8] [],
      Object [(''semi'', Ref 9)]]"

definition proto_elements :: "config_element list" where
  "proto_elements =
     [empty_element\<lparr>e_settings := Ref 10\<rparr>,
      empty_element\<lparr>e_settings := Ref 4, e_rules := Ref 7\<rparr>]"

text \<open>The state after the config for \<open>/src/a.js\<close> has been extracted from them.\<close>

definition proto_result :: array_state where
  "proto_result =
     \<lparr>heap =
        [Object [(''semi'', Ref 16)],
         Array [] [],
         Array [Str ''a''] [],
         Object [(''semi'', Ref 2)],
         Object [(''__proto__'', Ref 3)],
         Object [(''omitLastInOneLineBlock'', Bool True), (''added'', Num 1)],
         Array [Str ''error'', Ref 5] [],
         Object [(''semi'', Ref 6)],
         Object [(''added'', Num 1)],
         Array [Str ''b'', Ref 8] [],
         Object [(''semi'', Ref 9)],
         Object [], Object [], Object [], Object [], Object [],
         Array [Str ''a'', Ref 5] []],
      configs = [\<lparr>c_env = 11, c_globals = 12, c_parser = None, c_parserOptions = 13,
                  c_plugins = [], c_processor = None, c_rules = 14, c_settings = 15\<rparr>],
      cache = [(''1,0'', 0)], envMap = [], processorMap = [], ruleMap = []\<rparr>"

text \<open>The same two elements, for the files \<open>*.js\<close> only.\<close>

definition js_proto_elements :: "config_element list" where
  "js_proto_elements =
     map (\<lambda>element. element
            \<lparr>e_criteria := Some \<lparr>patterns = [\<lparr>g_includes = Some [''*.js''], g_excludes = None\<rparr>],
                                  basePath = ''/''\<rparr>\<rparr>)
       proto_elements"

section \<open>Properties of OverrideTester\<close>

lemma find_Some_member: "find P xs = Some x \<Longrightarrow> x \<in> set xs \<and> P x"
  by (induction xs) (auto split: if_splits)

lemma find_first: "P x \<Longrightarrow> \<forall>y \<in> set xs. \<not> P y \<Longrightarrow> find P (xs @ x # ys) = Some x"
  by (induction xs) auto

text \<open>
  Claim C6, as amended. \<open>OverrideTester.create\<close> throws the invalid-override-pattern error
  exactly when some normalized pattern is absolute or contains the two characters \<open>..\<close>
  anywhere (not only as a segment); when both inputs normalize to no pattern it returns
  \<open>null\<close>; otherwise it returns a tester with a single pattern group and the given base
  path. The error that is thrown is the one for the first such pattern, the patterns of
  \<open>files\<close> coming before those of \<open>excludedFiles\<close>.
\<close>

theorem create_cases:
  "(isl (create files excludedFiles base) =
      (\<exists>p \<in> set (normalizePatterns files @ normalizePatterns excludedFiles).
         isAbsolute p \<or> includes_str p ''..'')) \<and>
   (\<forall>before p after.
      normalizePatterns files @ normalizePatterns excludedFiles = before @ p # after \<and>
      (isAbsolute p \<or> includes_str p ''..'') \<and>
      (\<forall>q \<in> set before. \<not> (isAbsolute q \<or> includes_str q ''..'')) \<longrightarrow>
      create files excludedFiles base = Inl (invalid_pattern_error p)) \<and>
   (normalizePatterns files @ normalizePatterns excludedFiles = [] \<longrightarrow>
      create files excludedFiles base = Inr None) \<and>
   (normalizePatterns files @ normalizePatterns excludedFiles \<noteq> [] \<and>
    (\<forall>p \<in> set (normalizePatterns files @ normalizePatterns excludedFiles).
       \<not> (isAbsolute p \<or> includes_str p ''..'')) \<longrightarrow>
      create files excludedFiles base =
        Inr (Some \<lparr>patterns = [\<lparr>g_includes = toMatcher (normalizePatterns files),
                                 g_excludes = toMatcher (normalizePatterns excludedFiles)\<rparr>],
                    basePath = base\<rparr>))"
proof -
  let ?all = "normalizePatterns files @ normalizePatterns excludedFiles"
  have first: "create files excludedFiles base = Inl (invalid_pattern_error p)"
    if "?all = before @ p # after" "isAbsolute p \<or> includes_str p ''..''"
      "\<forall>q \<in> set before. \<not> (isAbsolute q \<or> includes_str q ''..'')"
    for before p after
  proof -
    from that(2,3) have "find rejected_pattern (before @ p # after) = Some p"
      by (intro find_first) (simp_all add: rejected_pattern_def)
    with that(1) have "find rejected_pattern ?all = Some p" "?all \<noteq> []" by simp_all
    then show ?thesis by (simp add: create_def Let_def)
  qed
  have rest: "(isl (create files excludedFiles base) =
      (\<exists>p \<in> set ?all. isAbsolute p \<or> includes_str p ''..'')) \<and>
    (?all = [] \<longrightarrow> create files excludedFiles base = Inr None) \<and>
    (?all \<noteq> [] \<and> (\<forall>p \<in> set ?all. \<not> (isAbsolute p \<or> includes_str p ''..'')) \<longrightarrow>
      create files excludedFiles base =
        Inr (Some \<lparr>patterns = [\<lparr>g_includes = toMatcher (normalizePatterns files),
                                 g_excludes = toMatcher (normalizePatterns excludedFiles)\<rparr>],
                    basePath = base\<rparr>))"
  proof (cases "?all = []")
    case True
    then show ?thesis by (simp add: create_def)
  next
    case False
    show ?thesis
    proof (cases "find rejected_pattern ?all")
      case None
      then have "\<forall>p \<in> set ?all. \<not> rejected_pattern p"
        by (auto simp: find_None_iff)
      with None False show ?thesis
        by (auto simp: create_def Let_def rejected_pattern_def)
    next
      case (Some p)
      then have "p \<in> set ?all" "rejected_pattern p"
        using find_Some_member [of rejected_pattern ?all p] by simp_all
      with Some False show ?thesis
        by (auto simp: create_def Let_def rejected_pattern_def)
    qed
  qed
  from first rest show ?thesis by blast
qed

theorem create_cases_witness:
  "create (PatternList [''*.js'', ''lib/..'']) (PatternList [''/etc'', '''']) ''/base'' =
     Inl (invalid_pattern_error ''lib/..'') \<and>
   create (OnePattern ''*.js'') NoPatterns ''/base'' =
     Inr (Some \<lparr>patterns = [\<lparr>g_includes = Some [''*.js''], g_excludes = None\<rparr>],
                 basePath = ''/base''\<rparr>) \<and>
   create (OnePattern '''') (PatternList ['''']) ''/base'' = Inr None"
proof -
  have a: "create (PatternList [''*.js'', ''lib/..'']) (PatternList [''/etc'', '''']) ''/base'' =
     Inl (invalid_pattern_error ''lib/..'')"
  proof -
    have "normalizePatterns (PatternList [''*.js'', ''lib/..'']) @
          normalizePatterns (PatternList [''/etc'', '''']) = [''*.js''] @ ''lib/..'' # [''/etc''] \<and>
          (isAbsolute ''lib/..'' \<or> includes_str ''lib/..'' ''..'') \<and>
          (\<forall>q \<in> set [''*.js'']. \<not> (isAbsolute q \<or> includes_str q ''..''))"
      by (simp add: isAbsolute_def)
    with create_cases [of "PatternList [''*.js'', ''lib/..'']" "PatternList [''/etc'', '''']"
        "''/base''"]
    show ?thesis by blast
  qed
  have b: "create (OnePattern ''*.js'') NoPatterns ''/base'' =
     Inr (Some \<lparr>patterns = [\<lparr>g_includes = Some [''*.js''], g_excludes = None\<rparr>],
                 basePath = ''/base''\<rparr>)"
    using create_cases [of "OnePattern ''*.js''" NoPatterns "''/base''"]
    by (simp add: isAbsolute_def toMatcher_def)
  have c: "create (OnePattern '''') (PatternList ['''']) ''/base'' = Inr None"
    using create_cases [of "OnePattern ''''" "PatternList ['''']" "''/base''"]
    by simp
  from a b c show ?thesis by simp
qed

text \<open>
  Claim C6 as stated fails: the pattern \<open>a..b\<close> is not absolute and has no \<open>..\<close> segment,
  and \<open>create\<close> throws on it.
\<close>

theorem create_segment_counterexample:
  "\<not> spec_rejected_pattern ''a..b'' \<and>
   normalizePatterns (OnePattern ''a..b'') @ normalizePatterns NoPatterns = [''a..b''] \<and>
   create (OnePattern ''a..b'') NoPatterns ''/base'' = Inl (invalid_pattern_error ''a..b'')"
  by (simp add: spec_rejected_pattern_def segments_def isAbsolute_def create_def
      rejected_pattern_def)

section \<open>Properties of the loaded dependencies\<close>

text \<open>
  Claim C8, as amended. \<open>ConfigDependency.toJSON\<close> emits every field but the definition:
  the error (the error object itself, \<open>null\<close> when there is none), the file path (\<open>null\<close>
  when there is none), the id, the importer's name and the importer's path; it never
  emits the definition. \<open>LoadedEntity.toJSON\<close> emits the id and the importer's path, the
  file path when it is a non-empty string and the error's stack when there is an error,
  and never the definition either.
\<close>

theorem toJSON_fields:
  "ConfigDependency_toJSON d =
     [(''error'', (case dep_error d of None \<Rightarrow> JsonNull | Some e \<Rightarrow> JsonError e)),
      (''filePath'', (case dep_filePath d of None \<Rightarrow> JsonNull | Some p \<Rightarrow> JsonString p)),
      (''id'', JsonString (dep_id d)),
      (''importerName'',
         (case dep_importerName d of None \<Rightarrow> JsonUndefined | Some n \<Rightarrow> JsonString n)),
      (''importerPath'',
         (case dep_importerPath d of None \<Rightarrow> JsonUndefined | Some p \<Rightarrow> JsonString p))] \<and>
   ''definition'' \<notin> fst ` set (ConfigDependency_toJSON d) \<and>
   ''definition'' \<notin> fst ` set (LoadedEntity_toJSON e) \<and>
   map fst (LoadedEntity_toJSON e) =
     [''id'', ''importerPath''] @
     (if le_filePath e \<noteq> None \<and> le_filePath e \<noteq> Some [] then [''filePath''] else []) @
     (if le_error e \<noteq> None then [''error''] else []) \<and>
   (case le_error e of
      None \<Rightarrow> True
    | Some er \<Rightarrow> map_of (LoadedEntity_toJSON e) ''error'' = Some (JsonString (stack er)))"
  by (auto simp: ConfigDependency_toJSON_def LoadedEntity_toJSON_def json_or_null_def
      json_or_undefined_def split: option.splits)

text \<open>
  Claim C8 as stated fails on \<open>ConfigDependency\<close>: for a loaded parser with no error the
  object has the keys \<open>error\<close> and \<open>importerName\<close> as well, where the stated serialization
  has the id, the importer's path and the file path only.
\<close>

theorem toJSON_counterexample:
  "map fst (ConfigDependency_toJSON
      \<lparr>dep_definition = Some \<lparr>module_ref = 0, m_environments = None, m_processors = None,
                               m_rules = None\<rparr>,
       dep_error = None, dep_filePath = Some ''/proj/parser.js'', dep_id = ''parser'',
       dep_importerName = Some ''.eslintrc'', dep_importerPath = Some ''/proj/.eslintrc''\<rparr>) =
     [''error'', ''filePath'', ''id'', ''importerName'', ''importerPath''] \<and>
   map fst (spec_toJSON
      \<lparr>dep_definition = Some \<lparr>module_ref = 0, m_environments = None, m_processors = None,
                               m_rules = None\<rparr>,
       dep_error = None, dep_filePath = Some ''/proj/parser.js'', dep_id = ''parser'',
       dep_importerName = Some ''.eslintrc'', dep_importerPath = Some ''/proj/.eslintrc''\<rparr>) =
     [''id'', ''importerPath'', ''filePath'']"
  by (simp add: ConfigDependency_toJSON_def spec_toJSON_def)

section \<open>Properties of the loaders\<close>

text \<open>\<open>_loadParser\<close> never reads the additional parser pool.\<close>

lemma loadParser_ignores_parser_pool:
  "loadParser ext (fac\<lparr>additionalParserPool := pool\<rparr>) nameOrPath importerPath importerName =
   loadParser ext fac nameOrPath importerPath importerName"
  by (simp add: loadParser_def split: option.splits)

text \<open>
  Claim C5 fails on the code. With the parser \<open>my-parser\<close> in the additional parser pool
  and an empty plugin pool, \<open>_loadParser\<close> asks the module resolver, and when that fails
  returns a dependency that holds the resolver's error and no definition; the stated
  loader returns the pool's entry with no call made.
\<close>

theorem loadParser_parser_pool_unused:
  "loadParser
     \<lparr>ext_resolve = (\<lambda>request relativeTo.
        Inl ((new_Error (''Cannot find module '' @ request))\<lparr>code := Some ''MODULE_NOT_FOUND''\<rparr>)),
      ext_require = (\<lambda>filePath. Inl (new_Error ''unreachable'')),
      ext_join = (\<lambda>a b. a @ ''/'' @ b),
      ext_normalizePackageName = (\<lambda>name prefix. prefix @ ''-'' @ name),
      ext_getShorthandName = (\<lambda>name prefix. name)\<rparr>
     \<lparr>additionalParserPool =
        [(''my-parser'', \<lparr>module_ref = 7, m_environments = None, m_processors = None,
                          m_rules = None\<rparr>)],
      additionalPluginPool = [], cwd = ''/proj''\<rparr>
     ''my-parser'' (Some ''/proj/.eslintrc'') (Some ''.eslintrc'') =
   (\<lparr>dep_definition = None,
     dep_error = Some ((new_Error ''Cannot find module my-parser'')
                        \<lparr>code := Some ''MODULE_NOT_FOUND''\<rparr>),
     dep_filePath = None, dep_id = ''my-parser'', dep_importerName = Some ''.eslintrc'',
     dep_importerPath = Some ''/proj/.eslintrc''\<rparr>,
    [Resolve ''my-parser'' ''/proj/.eslintrc'']) \<and>
   spec_loadParser_pool_hit
     \<lparr>additionalParserPool =
        [(''my-parser'', \<lparr>module_ref = 7, m_environments = None, m_processors = None,
                          m_rules = None\<rparr>)],
      additionalPluginPool = [], cwd = ''/proj''\<rparr>
     ''my-parser'' (Some ''/proj/.eslintrc'') (Some ''.eslintrc'') =
   Some (\<lparr>dep_definition = Some \<lparr>module_ref = 7, m_environments = None,
                                    m_processors = None, m_rules = None\<rparr>,
          dep_error = None, dep_filePath = Some ''/proj/.eslintrc'', dep_id = ''my-parser'',
          dep_importerName = Some ''.eslintrc'',
          dep_importerPath = Some ''/proj/.eslintrc''\<rparr>, [])"
  by (simp add: loadParser_def spec_loadParser_pool_hit_def truthy_string_def)

text \<open>The loop of \<open>_loadPlugins\<close> throws when a name left to load is a file path.\<close>

lemma loadPlugins_from_file_path:
  "\<exists>name \<in> set names. isFilePath name \<Longrightarrow>
   fst (loadPlugins_from ext fac importerPath importerName acc calls names) =
     Inl (new_Error ''Plugins array cannot includes file paths.'')"
proof (induction names arbitrary: acc calls)
  case Nil
  then show ?case by simp
next
  case (Cons name names)
  show ?case
  proof (cases "isFilePath name")
    case True
    then show ?thesis by simp
  next
    case False
    with Cons.prems have "\<exists>n \<in> set names. isFilePath n" by auto
    from Cons.IH [OF this] False show ?thesis
      by (simp add: Let_def split: prod.splits)
  qed
qed

text \<open>
  Claim C10. When the list of plugins holds a specifier that starts with \<open>./\<close> or \<open>../\<close>
  or is an absolute path, \<open>_loadPlugins\<close> throws the error with the message
  \<open>Plugins array cannot includes file paths.\<close>; it returns no map, so the failure is not
  captured into a dependency as the failures of \<open>_loadPlugin\<close> are.
\<close>

theorem loadPlugins_rejects_file_paths:
  "\<exists>name \<in> set names. startsWith name ''./'' \<or> startsWith name ''../'' \<or> isAbsolute name \<Longrightarrow>
   fst (loadPlugins ext fac names importerPath importerName) =
     Inl (new_Error ''Plugins array cannot includes file paths.'')"
proof -
  assume "\<exists>name \<in> set names.
            startsWith name ''./'' \<or> startsWith name ''../'' \<or> isAbsolute name"
  then have "\<exists>name \<in> set names. isFilePath name"
    by (auto simp: isFilePath_def)
  then show ?thesis
    unfolding loadPlugins_def by (rule loadPlugins_from_file_path)
qed

theorem loadPlugins_rejects_file_paths_witness:
  "fst (loadPlugins
     \<lparr>ext_resolve = (\<lambda>request relativeTo. Inr (''/proj/node_modules/'' @ request)),
      ext_require = (\<lambda>filePath. Inr \<lparr>module_ref = 1, m_environments = None,
                                      m_processors = None, m_rules = None\<rparr>),
      ext_join = (\<lambda>a b. a @ ''/'' @ b),
      ext_normalizePackageName = (\<lambda>name prefix. prefix @ ''-'' @ name),
      ext_getShorthandName = (\<lambda>name prefix. drop 14 name)\<rparr>
     \<lparr>additionalParserPool = [], additionalPluginPool = [], cwd = ''/proj''\<rparr>
     [''react'', ''./local-plugin''] (Some ''/proj/.eslintrc'') (Some ''.eslintrc'')) =
   Inl (new_Error ''Plugins array cannot includes file paths.'')"
  by (rule loadPlugins_rejects_file_paths) simp

section \<open>The heap under assignWithoutOverwrite\<close>

lemma lookup_prop_vals: "lookup_prop ps k = Ref a \<Longrightarrow> Ref a \<in> snd ` set ps"
  by (auto simp: lookup_prop_def split: option.splits dest!: map_of_SomeD intro: rev_image_eqI)

lemma map_of_vals: "map_of ps k = Some v \<Longrightarrow> v \<in> snd ` set ps"
  by (auto dest!: map_of_SomeD intro: rev_image_eqI)

lemma get_prop_vals:
  assumes g: "get_prop ob k = Ref a"
  shows "Ref a \<in> obj_vals ob"
proof (cases ob)
  case (Object ps)
  with g show ?thesis using lookup_prop_vals [of ps k a] by simp
next
  case (Array xs ps)
  show ?thesis
  proof (cases "index_of_key k")
    case None
    with g Array have "lookup_prop ps k = Ref a" by (simp split: if_splits)
    from lookup_prop_vals [OF this] Array show ?thesis by simp
  next
    case (Some i)
    with g Array have "i < length xs" "xs ! i = Ref a" by (auto split: if_splits)
    then have "Ref a \<in> set xs" by (metis nth_mem)
    with Array show ?thesis by simp
  qed
qed

lemma get_prop_refs: "get_prop ob k = Ref a \<Longrightarrow> a \<in> refs_of ob"
  by (simp add: refs_of_def get_prop_vals)

lemma own_prop_vals:
  assumes g: "own_prop ob k = Some (Ref a)"
  shows "Ref a \<in> obj_vals ob"
proof (cases ob)
  case (Object ps)
  with g show ?thesis using map_of_vals [of ps k "Ref a"] by simp
next
  case (Array xs ps)
  show ?thesis
  proof (cases "index_of_key k")
    case None
    with g Array have "map_of ps k = Some (Ref a)" by (simp split: if_splits)
    from map_of_vals [OF this] Array show ?thesis by simp
  next
    case (Some i)
    with g Array have "i < length xs" "xs ! i = Ref a" by (auto split: if_splits)
    then have "Ref a \<in> set xs" by (metis nth_mem)
    with Array show ?thesis by simp
  qed
qed

lemma own_prop_refs: "own_prop ob k = Some (Ref a) \<Longrightarrow> a \<in> refs_of ob"
  by (simp add: refs_of_def own_prop_vals)

lemma update_values: "snd ` set (AList.update k v ps) \<subseteq> insert v (snd ` set ps)"
  by (induction ps) auto

lemma set_prop_vals: "obj_vals (set_prop ob k v) \<subseteq> insert v (insert Undefined (obj_vals ob))"
proof (cases ob)
  case (Object ps)
  then show ?thesis using update_values [of k v ps] by auto
next
  case (Array xs ps)
  show ?thesis
  proof (cases "index_of_key k")
    case None
    with Array show ?thesis using update_values [of k v ps] by auto
  next
    case (Some i)
    have "set (xs[i := v]) \<subseteq> insert v (set xs)" by (rule set_update_subset_insert)
    with Array Some show ?thesis by (auto split: if_splits)
  qed
qed

lemma set_prop_refs: "refs_of (set_prop ob k v) \<subseteq> refs_of ob \<union> {a. v = Ref a}"
  using set_prop_vals [of ob k v] by (auto simp: refs_of_def)

lemma deref_Some: "deref h a = Some ob \<Longrightarrow> a < length h \<and> h ! a = ob"
  by (auto simp: deref_def split: if_splits)

text \<open>What the prototypes give is in every closed region.\<close>

lemma added_prop_region:
  assumes c: "closed_region F h" and a: "a \<in> F" and g: "added_prop h a k = Some (Ref r)"
  shows "r \<in> F"
proof -
  from g obtain ob where d: "deref h a = Some ob" and o: "own_prop ob k = Some (Ref r)"
    by (auto simp: added_prop_def split: option.splits)
  from d have "h ! a = ob" by (auto dest: deref_Some)
  with o have "r \<in> refs_of (h ! a)" by (simp add: own_prop_refs)
  with c a show ?thesis by (auto simp: closed_region_def)
qed

lemma object_builtin_region:
  "object_builtin proto k = Some (Value (Ref r)) \<Longrightarrow> proto = Ref r"
  by (auto simp: object_builtin_def split: if_splits)

lemma from_object_prototype_region:
  assumes c: "closed_region F h" and p: "\<forall>a. proto = Ref a \<longrightarrow> a \<in> F"
    and g: "from_object_prototype h proto k = Some (Value (Ref r))"
  shows "r \<in> F"
proof (cases "added_prop h objectPrototype k")
  case None
  with g have "proto = Ref r"
    by (simp add: from_object_prototype_def object_builtin_region)
  with p show ?thesis by simp
next
  case (Some v)
  with g have "added_prop h objectPrototype k = Some (Ref r)"
    by (simp add: from_object_prototype_def)
  from added_prop_region [OF c _ this] c show ?thesis by (simp add: closed_region_def)
qed

lemma array_builtin_region:
  assumes c: "closed_region F h" and p: "\<forall>a. proto = Ref a \<longrightarrow> a \<in> F"
    and g: "array_builtin h proto k = Some (Value (Ref r))"
  shows "r \<in> F"
  using g from_object_prototype_region [OF c p, of k r]
  by (auto simp: array_builtin_def split: option.splits)

lemma from_array_prototype_region:
  assumes c: "closed_region F h" and p: "\<forall>a. proto = Ref a \<longrightarrow> a \<in> F"
    and g: "from_array_prototype h proto k = Some (Value (Ref r))"
  shows "r \<in> F"
proof (cases "added_prop h arrayPrototype k")
  case None
  with g have "array_builtin h proto k = Some (Value (Ref r))"
    by (simp add: from_array_prototype_def)
  from array_builtin_region [OF c p this] show ?thesis .
next
  case (Some v)
  with g have "added_prop h arrayPrototype k = Some (Ref r)"
    by (simp add: from_array_prototype_def)
  from added_prop_region [OF c _ this] c show ?thesis by (simp add: closed_region_def)
qed

lemma find_prop_region:
  assumes c: "closed_region F h" and a: "a \<in> F"
    and g: "find_prop h a (h ! a) k = Some (Value (Ref r))"
  shows "r \<in> F"
proof (cases "own_prop (h ! a) k")
  case (Some v)
  with g have "own_prop (h ! a) k = Some (Ref r)" by (simp add: find_prop_def)
  then have "r \<in> refs_of (h ! a)" by (rule own_prop_refs)
  with c a show ?thesis by (auto simp: closed_region_def)
next
  case None
  from c have o: "objectPrototype \<in> F" and ar: "arrayPrototype \<in> F"
    by (simp_all add: closed_region_def)
  from None g have i: "inherited_prop h a (h ! a) k = Some (Value (Ref r))"
    by (simp add: find_prop_def)
  show ?thesis
  proof (cases "a = objectPrototype")
    case True
    with i show ?thesis by (auto simp: inherited_prop_def dest: object_builtin_region)
  next
    case False
    show ?thesis
    proof (cases "a = arrayPrototype")
      case True
      with i False have "array_builtin h (Ref objectPrototype) k = Some (Value (Ref r))"
        by (simp add: inherited_prop_def)
      from array_builtin_region [OF c _ this] o show ?thesis by simp
    next
      case f2: False
      show ?thesis
      proof (cases "h ! a")
        case (Object ps)
        with i False f2
        have "from_object_prototype h (Ref objectPrototype) k = Some (Value (Ref r))"
          by (simp add: inherited_prop_def)
        from from_object_prototype_region [OF c _ this] o show ?thesis by simp
      next
        case (Array xs ps)
        with i False f2
        have "from_array_prototype h (Ref arrayPrototype) k = Some (Value (Ref r))"
          by (simp add: inherited_prop_def)
        from from_array_prototype_region [OF c _ this] ar show ?thesis by simp
      qed
    qed
  qed
qed

lemma read_prop_region:
  assumes c: "closed_region F h" and a: "a \<in> F"
    and g: "read_prop h a (h ! a) k = Value (Ref r)"
  shows "r \<in> F"
proof -
  from g have "find_prop h a (h ! a) k = Some (Value (Ref r))"
    by (auto simp: read_prop_def slot_or_undefined_def split: option.splits)
  from find_prop_region [OF c a this] show ?thesis .
qed

lemma test_target_object: "test_target x = IsObject t \<Longrightarrow> x = Value (Ref t)"
  by (auto simp: test_target_def split: slot.splits val.splits)

text \<open>Writing into a closed region.\<close>

lemma region_step_refl: "closed_region F h \<Longrightarrow> region_step F h h"
  by (simp add: region_step_def)

lemma region_step_trans:
  assumes a: "region_step F h h1"
    and b: "region_step (F \<union> {length h..<length h1}) h1 h2"
  shows "region_step F h h2"
proof -
  from a b have l: "length h \<le> length h1" "length h1 \<le> length h2"
    by (simp_all add: region_step_def)
  then have "F \<union> {length h..<length h1} \<union> {length h1..<length h2} = F \<union> {length h..<length h2}"
    by auto
  with a b l show ?thesis
    by (auto simp: region_step_def)
qed

lemma region_step_closed: "region_step F h h' \<Longrightarrow> closed_region (F \<union> {length h..<length h'}) h'"
  by (simp add: region_step_def)

lemma region_write:
  assumes c: "closed_region F h" and t: "t \<in> F" and v: "\<forall>a. v = Ref a \<longrightarrow> a \<in> F"
  shows "region_step F h (h[t := set_prop (h ! t) k v])"
proof -
  from c t have tl: "t < length h" and tr: "refs_of (h ! t) \<subseteq> F"
    by (auto simp: closed_region_def)
  have "refs_of (set_prop (h ! t) k v) \<subseteq> F"
    using set_prop_refs [of "h ! t" k v] tr v by auto
  with c tl t show ?thesis
    by (auto simp: region_step_def closed_region_def nth_list_update)
qed

lemma region_replace:
  assumes c: "closed_region F h" and t: "t \<in> F" and r: "refs_of ob \<subseteq> F"
  shows "region_step F h (h[t := ob])"
proof -
  from c t have tl: "t < length h" by (auto simp: closed_region_def)
  with c t r show ?thesis
    by (auto simp: region_step_def closed_region_def nth_list_update)
qed

lemma region_alloc_write:
  assumes c: "closed_region F h" and t: "t \<in> F" and n: "refs_of ob \<subseteq> F"
  shows "region_step F h ((h @ [ob])[t := set_prop (h ! t) k (Ref (length h))])"
proof -
  from c t have tl: "t < length h" and tr: "refs_of (h ! t) \<subseteq> F"
    by (auto simp: closed_region_def)
  from c have pr: "objectPrototype \<in> F" "arrayPrototype \<in> F"
    by (simp_all add: closed_region_def)
  have r: "refs_of (set_prop (h ! t) k (Ref (length h))) \<subseteq> insert (length h) F"
    using set_prop_refs [of "h ! t" k "Ref (length h)"] tr by auto
  have "closed_region (F \<union> {length h..<length h + 1}) ((h @ [ob])[t := set_prop (h ! t) k (Ref (length h))])"
    unfolding closed_region_def
  proof (intro conjI ballI)
    fix a assume a: "a \<in> F \<union> {length h..<length h + 1}"
    show "a < length ((h @ [ob])[t := set_prop (h ! t) k (Ref (length h))])"
      using a c by (auto simp: closed_region_def)
    show "refs_of ((h @ [ob])[t := set_prop (h ! t) k (Ref (length h))] ! a)
            \<subseteq> F \<union> {length h..<length h + 1}"
    proof (cases "a = t")
      case True
      with tl r show ?thesis by (auto simp: nth_list_update)
    next
      case False
      show ?thesis
      proof (cases "a = length h")
        case True
        with tl n show ?thesis by (auto simp: nth_list_update nth_append)
      next
        case f2: False
        with a have "a \<in> F" by auto
        with c have "a < length h" "refs_of (h ! a) \<subseteq> F" by (auto simp: closed_region_def)
        with False show ?thesis by (auto simp: nth_list_update nth_append)
      qed
    qed
  qed (use pr in simp_all)
  moreover have "\<forall>a. a < length h \<and> a \<notin> F \<longrightarrow>
      (h @ [ob])[t := set_prop (h ! t) k (Ref (length h))] ! a = h ! a"
  proof (intro allI impI)
    fix a assume "a < length h \<and> a \<notin> F"
    with t have "a \<noteq> t" "a < length h" by auto
    then show "(h @ [ob])[t := set_prop (h ! t) k (Ref (length h))] ! a = h ! a"
      by (simp add: nth_append)
  qed
  ultimately show ?thesis by (simp add: region_step_def)
qed

lemma assign_loop_region:
  assumes IH: "\<And>h t src h' F. assignWithoutOverwrite fuel h t src = Some h' \<Longrightarrow> t \<in> F \<Longrightarrow>
                 closed_region F h \<Longrightarrow> region_step F h h'"
  shows "assign_loop fuel h target s keys = Some h' \<Longrightarrow> target \<in> F \<Longrightarrow> closed_region F h \<Longrightarrow>
         region_step F h h'"
proof (induction keys arbitrary: h F)
  case Nil
  then show ?case by (simp add: region_step_refl)
next
  case (Cons key keys)
  from Cons.prems(1) obtain tobj sobj where dt: "deref h target = Some tobj"
    and ds: "deref h s = Some sobj"
    by (auto split: option.splits)
  from dt have tobj: "tobj = h ! target" by (auto dest: deref_Some)
  let ?step = "(case test_target (read_prop h target tobj key) of
                        IsObject t \<Rightarrow> assignWithoutOverwrite fuel h t (get_prop sobj key)
                      | IsUndefined \<Rightarrow>
                          (case get_prop sobj key of
                             Ref s' \<Rightarrow>
                               assignWithoutOverwrite fuel
                                 ((h @ [if isArray h (Ref s') then Array [] [] else Object []])
                                    [target := set_prop tobj key (Ref (length h))])
                                 (length h) (Ref s')
                           | Undefined \<Rightarrow> Some h
                           | v \<Rightarrow> Some (h[target := set_prop tobj key v]))
                      | IsOther \<Rightarrow> Some h)"
  from Cons.prems(1) dt ds obtain h1 where step: "?step = Some h1"
    and rest: "assign_loop fuel h1 target s keys = Some h'"
    by (auto split: option.splits)
  have r1: "region_step F h h1"
  proof (cases "test_target (read_prop h target tobj key)")
    case (IsObject t)
    then have "read_prop h target (h ! target) key = Value (Ref t)"
      using tobj by (simp add: test_target_object)
    from read_prop_region [OF Cons.prems(3) Cons.prems(2) this] have "t \<in> F" .
    with step IsObject Cons.prems(3) show ?thesis by (auto intro: IH)
  next
    case IsUndefined
    show ?thesis
    proof (cases "get_prop sobj key")
      case (Ref s')
      let ?ob = "if isArray h (Ref s') then Array [] [] else Object []"
      let ?h2 = "(h @ [?ob])[target := set_prop tobj key (Ref (length h))]"
      have n: "refs_of ?ob \<subseteq> F" by (simp add: refs_of_def)
      from region_alloc_write [OF Cons.prems(3) Cons.prems(2) n, of key] tobj
      have a: "region_step F h ?h2" by simp
      then have c2: "closed_region (F \<union> {length h..<length ?h2}) ?h2"
        by (rule region_step_closed)
      from step IsUndefined Ref have "assignWithoutOverwrite fuel ?h2 (length h) (Ref s') = Some h1"
        by simp
      from IH [OF this _ c2] have "region_step (F \<union> {length h..<length ?h2}) ?h2 h1"
        by simp
      with a show ?thesis by (rule region_step_trans)
    next
      case Undefined
      with step IsUndefined Cons.prems(3) show ?thesis
        by (simp add: region_step_refl)
    qed (use step IsUndefined Cons.prems(2,3) tobj region_write [of F h target _ key] in auto)
  next
    case IsOther
    with step Cons.prems(3) show ?thesis by (simp add: region_step_refl)
  qed
  then have "closed_region (F \<union> {length h..<length h1}) h1"
    by (rule region_step_closed)
  from Cons.IH [OF rest _ this] Cons.prems(2)
  have "region_step (F \<union> {length h..<length h1}) h1 h'" by simp
  with r1 show ?case by (rule region_step_trans)
qed

lemma assign_region:
  "assignWithoutOverwrite fuel h t src = Some h' \<Longrightarrow> t \<in> F \<Longrightarrow> closed_region F h \<Longrightarrow>
   region_step F h h'"
proof (induction fuel arbitrary: h t src h' F)
  case 0
  then show ?case by (cases src) (auto simp: region_step_refl)
next
  case (Suc fuel)
  show ?case
  proof (cases src)
    case (Ref s)
    with Suc.prems(1) obtain sobj where "assign_loop fuel h t s (own_keys sobj) = Some h'"
      by (auto split: option.splits)
    from assign_loop_region [OF Suc.IH this Suc.prems(2,3)] show ?thesis .
  qed (use Suc.prems in \<open>auto simp: region_step_refl\<close>)
qed

section \<open>The heap under mergeRules\<close>

lemma slot_value_Ref: "slot_value x = Ref r \<Longrightarrow> x = Value (Ref r)"
  by (auto simp: slot_value_def split: slot.splits)

lemma spread_region:
  assumes c: "closed_region F h" and a: "a \<in> F" and v: "Ref r \<in> set (spread h a (h ! a) n)"
  shows "r \<in> F"
proof -
  from v obtain i where "slot_value (read_prop h a (h ! a) (decimal i)) = Ref r"
    by (auto simp: spread_def)
  then have "read_prop h a (h ! a) (decimal i) = Value (Ref r)" by (rule slot_value_Ref)
  from read_prop_region [OF c a this] show ?thesis .
qed

lemma spread_slice_region:
  assumes c: "closed_region F h" and a: "a \<in> F"
    and v: "Ref r \<in> set (spread_slice h a (h ! a) n)"
  shows "r \<in> F"
proof -
  from c have ar: "arrayPrototype \<in> F" by (simp add: closed_region_def)
  from v obtain j where j:
    "(case find_prop h a (h ! a) (decimal (Suc j)) of
        Some x \<Rightarrow> slot_value x
      | None \<Rightarrow> slot_value (slot_or_undefined
                  (from_array_prototype h (Ref arrayPrototype) (decimal j)))) = Ref r"
    by (auto simp: spread_slice_def)
  show ?thesis
  proof (cases "find_prop h a (h ! a) (decimal (Suc j))")
    case (Some x)
    with j have "find_prop h a (h ! a) (decimal (Suc j)) = Some (Value (Ref r))"
      by (simp add: slot_value_Ref)
    from find_prop_region [OF c a this] show ?thesis .
  next
    case None
    with j have "slot_or_undefined (from_array_prototype h (Ref arrayPrototype) (decimal j)) =
        Value (Ref r)"
      by (simp add: slot_value_Ref)
    then have "from_array_prototype h (Ref arrayPrototype) (decimal j) = Some (Value (Ref r))"
      by (auto simp: slot_or_undefined_def split: option.splits)
    from from_array_prototype_region [OF c _ this] ar show ?thesis by simp
  qed
qed

lemma array_elements_region:
  assumes c: "closed_region F h" and s: "\<forall>a. sourceDef = Ref a \<longrightarrow> a \<in> F"
    and e: "array_elements h sourceDef = Some xs" and v: "Ref r \<in> set xs"
  shows "r \<in> F"
proof -
  from e obtain a ys ps where a: "sourceDef = Ref a" "deref h a = Some (Array ys ps)"
    "xs = spread h a (Array ys ps) (length ys)"
    by (cases sourceDef) (auto split: option.splits obj.splits)
  from a(2) have "h ! a = Array ys ps" by (auto dest: deref_Some)
  with a(3) v have "Ref r \<in> set (spread h a (h ! a) (length ys))" by simp
  from spread_region [OF c _ this] s a(1) show ?thesis by simp
qed

lemma slice_options_region:
  assumes c: "closed_region F h" and s: "\<forall>a. sourceDef = Ref a \<longrightarrow> a \<in> F"
    and e: "slice_options h sourceDef = Some (Inr xs)" and v: "Ref r \<in> set xs"
  shows "r \<in> F"
proof -
  from e obtain a ys ps where a: "sourceDef = Ref a" "deref h a = Some (Array ys ps)"
    "xs = spread_slice h a (Array ys ps) (length ys)"
    by (cases sourceDef) (auto split: option.splits obj.splits slot.splits)
  from a(2) have "h ! a = Array ys ps" by (auto dest: deref_Some)
  with a(3) v have "Ref r \<in> set (spread_slice h a (h ! a) (length ys))" by simp
  from spread_slice_region [OF c _ this] s a(1) show ?thesis by simp
qed

lemma push_options_region:
  assumes c: "closed_region F h" and t: "\<forall>a. targetDef = Value (Ref a) \<longrightarrow> a \<in> F"
    and o: "\<forall>r. Ref r \<in> set options \<longrightarrow> r \<in> F"
    and p: "push_options h targetDef options = Some (e, h')"
  shows "region_step F h h'"
proof (cases "read_slot h targetDef ''push''")
  case None
  with p show ?thesis by (simp add: push_options_def)
next
  case (Some x)
  show ?thesis
  proof (cases x)
    case (Value v)
    with p Some c show ?thesis by (simp add: push_options_def region_step_refl)
  next
    case (Builtin n)
    with p Some obtain a xs ps where a: "targetDef = Value (Ref a)"
      "deref h a = Some (Array xs ps)" "h' = h[a := Array (xs @ options) ps]"
      by (auto simp: push_options_def split: slot.splits val.splits option.splits obj.splits)
    from a(1) t have af: "a \<in> F" by simp
    from a(2) have ha: "h ! a = Array xs ps" by (auto dest: deref_Some)
    from c af have "refs_of (h ! a) \<subseteq> F" by (auto simp: closed_region_def)
    with ha have "refs_of (Array xs ps) \<subseteq> F" by simp
    with o have "refs_of (Array (xs @ options) ps) \<subseteq> F" by (auto simp: refs_of_def)
    from region_replace [OF c af this] a(3) show ?thesis by simp
  qed
qed

lemma merge_rule_defined:
  assumes r: "read_prop h target tobj key = targetDef" and d: "targetDef \<noteq> Value Undefined"
  shows "merge_rule h target tobj key sourceDef =
     (case length_is_one h targetDef of
        None \<Rightarrow> None
      | Some (Inl e) \<Rightarrow> Some (Some e, h)
      | Some (Inr one) \<Rightarrow>
          (case array_length h sourceDef of
             Some n \<Rightarrow>
               (if one \<and> 2 \<le> n
                then (case slice_options h sourceDef of
                        None \<Rightarrow> None
                      | Some (Inl e) \<Rightarrow> Some (Some e, h)
                      | Some (Inr options) \<Rightarrow> push_options h targetDef options)
                else Some (None, h))
           | None \<Rightarrow> Some (None, h)))"
  unfolding merge_rule_def r using d by (cases targetDef) (auto split: val.splits)

lemma merge_rule_region:
  assumes c: "closed_region F h" and t: "target \<in> F"
    and s: "\<forall>a. sourceDef = Ref a \<longrightarrow> a \<in> F"
    and m: "merge_rule h target (h ! target) key sourceDef = Some (e, h')"
  shows "region_step F h h'"
proof (cases "read_prop h target (h ! target) key = Value Undefined")
  case True
  let ?ob = "Array (case array_elements h sourceDef of Some xs \<Rightarrow> xs | None \<Rightarrow> [sourceDef]) []"
  have "refs_of ?ob \<subseteq> F"
  proof (cases "array_elements h sourceDef")
    case None
    with s show ?thesis by (auto simp: refs_of_def)
  next
    case (Some xs)
    with array_elements_region [OF c s Some] show ?thesis by (auto simp: refs_of_def)
  qed
  from region_alloc_write [OF c t this, of key] m True show ?thesis
    by (simp add: merge_rule_def)
next
  case False
  let ?targetDef = "read_prop h target (h ! target) key"
  from m merge_rule_defined [OF refl False, of sourceDef] have m2:
    "(case length_is_one h ?targetDef of
        None \<Rightarrow> None
      | Some (Inl e) \<Rightarrow> Some (Some e, h)
      | Some (Inr one) \<Rightarrow>
          (case array_length h sourceDef of
             Some n \<Rightarrow>
               (if one \<and> 2 \<le> n
                then (case slice_options h sourceDef of
                        None \<Rightarrow> None
                      | Some (Inl e) \<Rightarrow> Some (Some e, h)
                      | Some (Inr options) \<Rightarrow> push_options h ?targetDef options)
                else Some (None, h))
           | None \<Rightarrow> Some (None, h))) = Some (e, h')"
    by simp
  have tr: "\<forall>a. ?targetDef = Value (Ref a) \<longrightarrow> a \<in> F"
    using read_prop_region [OF c t] by blast
  show ?thesis
  proof (cases "h' = h")
    case True
    with c show ?thesis by (simp add: region_step_refl)
  next
    case f2: False
    with m2 obtain options where o: "slice_options h sourceDef = Some (Inr options)"
      and p: "push_options h ?targetDef options = Some (e, h')"
      by (auto split: option.splits sum.splits if_splits)
    have "\<forall>r. Ref r \<in> set options \<longrightarrow> r \<in> F"
      using slice_options_region [OF c s o] by blast
    from push_options_region [OF c tr this p] show ?thesis .
  qed
qed

lemma mergeRules_loop_region:
  "mergeRules_loop h target s keys = Some (e, h') \<Longrightarrow> closed_region F h \<Longrightarrow> target \<in> F \<Longrightarrow>
   s \<in> F \<Longrightarrow> region_step F h h'"
proof (induction keys arbitrary: h F)
  case Nil
  then show ?case by (simp add: region_step_refl)
next
  case (Cons key keys)
  from Cons.prems(1) obtain tobj sobj where dt: "deref h target = Some tobj"
    and ds: "deref h s = Some sobj"
    by (auto split: option.splits)
  from dt ds have ob: "tobj = h ! target" "sobj = h ! s" by (auto dest: deref_Some)
  from Cons.prems(1) dt ds obtain e1 h1 where
    m: "merge_rule h target tobj key (get_prop sobj key) = Some (e1, h1)"
    by (auto split: option.splits)
  have sv: "\<forall>a. get_prop sobj key = Ref a \<longrightarrow> a \<in> F"
    using get_prop_refs [of sobj key] ob(2) Cons.prems(2,4) by (auto simp: closed_region_def)
  from merge_rule_region [OF Cons.prems(2,3) sv] m ob(1) have r1: "region_step F h h1" by simp
  show ?case
  proof (cases e1)
    case (Some err)
    with Cons.prems(1) dt ds m have "h' = h1" by simp
    with r1 show ?thesis by simp
  next
    case None
    with Cons.prems(1) dt ds m have rest: "mergeRules_loop h1 target s keys = Some (e, h')"
      by simp
    from r1 have "closed_region (F \<union> {length h..<length h1}) h1" by (rule region_step_closed)
    from Cons.IH [OF rest this] Cons.prems(3,4)
    have "region_step (F \<union> {length h..<length h1}) h1 h'" by simp
    with r1 show ?thesis by (rule region_step_trans)
  qed
qed

lemma mergeRules_region:
  assumes m: "mergeRules h target source = Some (e, h')" and c: "closed_region F h"
    and t: "target \<in> F" and s: "\<forall>a. source = Ref a \<longrightarrow> a \<in> F"
  shows "region_step F h h'"
proof (cases source)
  case (Ref a)
  with m obtain sobj where "mergeRules_loop h target a (own_keys sobj) = Some (e, h')"
    by (auto simp: mergeRules_def split: option.splits)
  from mergeRules_loop_region [OF this c t] s Ref show ?thesis by simp
qed (use m c in \<open>auto simp: mergeRules_def region_step_refl\<close>)

section \<open>The loop of createConfig\<close>

lemma same_records_refl: "same_records c c"
  by (simp add: same_records_def)

lemma same_records_trans: "same_records a b \<Longrightarrow> same_records b c \<Longrightarrow> same_records a c"
  by (simp add: same_records_def)

lemma same_records_eq: "same_records c c' \<Longrightarrow> records c' = records c"
  by (auto simp: same_records_def records_def)

lemma adopt_parser_same: "adopt_parser config element = Inr c \<Longrightarrow> same_records config c"
  by (auto simp: adopt_parser_def same_records_def split: option.splits if_splits)

lemma adopt_processor_same: "same_records config (adopt_processor config element)"
  by (simp add: adopt_processor_def same_records_def)

lemma mergePlugins_loop_state:
  "mergePlugins_loop ext fuel ps target s = Some (res, s') \<Longrightarrow>
   heap s' = heap s \<and> configs s' = configs s \<and> cache s' = cache s"
proof (induction ps arbitrary: target s)
  case Nil
  then show ?case by simp
next
  case (Cons p ps)
  obtain key sourceValue where p: "p = (key, sourceValue)" by (cases p)
  show ?case
  proof (cases "plugin_absent (heap s) target key")
    case False
    with Cons.prems p have "mergePlugins_loop ext fuel ps target s = Some (res, s')" by simp
    from Cons.IH [OF this] show ?thesis .
  next
    case True
    show ?thesis
    proof (cases "dep_error sourceValue")
      case (Some e)
      with Cons.prems p True show ?thesis by simp
    next
      case ne: None
      show ?thesis
      proof (cases "dep_definition sourceValue")
        case None
        with Cons.prems p True ne show ?thesis by simp
      next
        case (Some d)
        let ?s1 = "s\<lparr>envMap := collect key (m_environments d) (envMap s),
                     processorMap := collect key (m_processors d) (processorMap s)\<rparr>"
        from Cons.prems p True ne Some
        obtain r rm where c: "collect_rules ext fuel key (m_rules d) (ruleMap ?s1) = Some (r, rm)"
          by (auto simp: Let_def split: option.splits)
        show ?thesis
        proof (cases r)
          case None
          with Cons.prems p True ne Some c
          have "mergePlugins_loop ext fuel ps (AList.update key sourceValue target)
                  (?s1\<lparr>ruleMap := rm\<rparr>) = Some (res, s')"
            by (simp add: Let_def)
          from Cons.IH [OF this] show ?thesis by simp
        next
          case (Some e)
          with Cons.prems p True ne \<open>dep_definition sourceValue = Some d\<close> c
          show ?thesis by (auto simp: Let_def)
        qed
      qed
    qed
  qed
qed

lemma mergePlugins_state:
  "mergePlugins ext fuel target source s = Some (res, s') \<Longrightarrow>
   heap s' = heap s \<and> configs s' = configs s \<and> cache s' = cache s"
  by (cases source) (auto simp: mergePlugins_def dest: mergePlugins_loop_state)

lemma assign_records_region:
  assumes a: "assign_records fuel h config element = Some h'"
    and c: "closed_region F h" and r: "records config \<subseteq> F"
  shows "region_step F h h'"
proof -
  from a obtain h1 h2 h3 where
    a1: "assignWithoutOverwrite fuel h (c_env config) (e_env element) = Some h1" and
    a2: "assignWithoutOverwrite fuel h1 (c_globals config) (e_globals element) = Some h2" and
    a3: "assignWithoutOverwrite fuel h2 (c_parserOptions config) (e_parserOptions element) =
           Some h3" and
    a4: "assignWithoutOverwrite fuel h3 (c_settings config) (e_settings element) = Some h'"
    by (auto simp: assign_records_def split: option.splits)
  from r have t: "c_env config \<in> F" "c_globals config \<in> F" "c_parserOptions config \<in> F"
    "c_settings config \<in> F"
    by (simp_all add: records_def)
  from assign_region [OF a1 t(1) c] have s1: "region_step F h h1" .
  from assign_region [OF a2 _ region_step_closed [OF s1]] t(2)
  have "region_step (F \<union> {length h..<length h1}) h1 h2" by simp
  with s1 have s2: "region_step F h h2" by (rule region_step_trans)
  from assign_region [OF a3 _ region_step_closed [OF s2]] t(3)
  have "region_step (F \<union> {length h..<length h2}) h2 h3" by simp
  with s2 have s3: "region_step F h h3" by (rule region_step_trans)
  from assign_region [OF a4 _ region_step_closed [OF s3]] t(4)
  have "region_step (F \<union> {length h..<length h3}) h3 h'" by simp
  with s3 show ?thesis by (rule region_step_trans)
qed

text \<open>
  One turn of the loop writes inside a closed region that has the records of the config
  and the objects that the element refers to; it keeps the records of the config, the
  configs made so far and the cache.
\<close>

lemma merge_element_region:
  assumes m: "merge_element ext fuel element config s = Some (res, s')"
    and c: "closed_region F (heap s)" and r: "records config \<subseteq> F"
    and e: "\<forall>a. Ref a \<in> set (element_values element) \<longrightarrow> a \<in> F"
  shows "region_step F (heap s) (heap s')"
proof (cases "adopt_parser config element")
  case (Inl err)
  with m c show ?thesis by (auto simp: merge_element_def region_step_refl)
next
  case (Inr config1)
  let ?c2 = "adopt_processor config1 element"
  have "same_records config ?c2"
    using adopt_parser_same [OF Inr] adopt_processor_same [of config1 element]
    by (rule same_records_trans)
  with r have r2: "records ?c2 \<subseteq> F" by (simp add: same_records_eq)
  from m Inr obtain h where a: "assign_records fuel (heap s) ?c2 element = Some h"
    by (auto simp: merge_element_def Let_def split: option.splits)
  from assign_records_region [OF a c r2] have s1: "region_step F (heap s) h" .
  from m Inr a obtain r1 s1 where
    p: "mergePlugins ext fuel (c_plugins ?c2) (e_plugins element) (s\<lparr>heap := h\<rparr>) = Some (r1, s1)"
    by (auto simp: merge_element_def Let_def split: option.splits)
  from mergePlugins_state [OF p] have st: "heap s1 = h" by simp
  show ?thesis
  proof (cases r1)
    case (Inl err)
    with m Inr a p have "s' = s1" by (auto simp: merge_element_def Let_def)
    with s1 st show ?thesis by simp
  next
    case (Inr plugins)
    with m \<open>adopt_parser config element = Inr config1\<close> a p obtain r2 h' where
      mr: "mergeRules (heap s1) (c_rules ?c2) (e_rules element) = Some (r2, h')"
      and s': "heap s' = h'"
      by (auto simp: merge_element_def Let_def split: option.splits)
    from r2 have t: "c_rules ?c2 \<in> F \<union> {length (heap s)..<length h}"
      by (simp add: records_def)
    from e have sv: "\<forall>a. e_rules element = Ref a \<longrightarrow> a \<in> F \<union> {length (heap s)..<length h}"
      by (simp add: element_values_def)
    from mergeRules_region [OF mr [unfolded st] region_step_closed [OF s1] t sv]
    have "region_step (F \<union> {length (heap s)..<length h}) h h'" .
    with s1 have "region_step F (heap s) h'" by (rule region_step_trans)
    with s' show ?thesis by simp
  qed
qed

lemma merge_element_state:
  assumes m: "merge_element ext fuel element config s = Some (res, s')"
  shows "configs s' = configs s \<and> cache s' = cache s \<and>
         (\<forall>c'. res = Inr c' \<longrightarrow> same_records config c')"
proof (cases "adopt_parser config element")
  case (Inl err)
  with m show ?thesis by (auto simp: merge_element_def)
next
  case (Inr config1)
  let ?c2 = "adopt_processor config1 element"
  have s2: "same_records config ?c2"
    using adopt_parser_same [OF Inr] adopt_processor_same [of config1 element]
    by (rule same_records_trans)
  from m Inr obtain h where a: "assign_records fuel (heap s) ?c2 element = Some h"
    by (auto simp: merge_element_def Let_def split: option.splits)
  from m Inr a obtain r1 s1 where
    p: "mergePlugins ext fuel (c_plugins ?c2) (e_plugins element) (s\<lparr>heap := h\<rparr>) = Some (r1, s1)"
    by (auto simp: merge_element_def Let_def split: option.splits)
  from mergePlugins_state [OF p] have st: "configs s1 = configs s" "cache s1 = cache s"
    by simp_all
  show ?thesis
  proof (cases r1)
    case (Inl err)
    with m Inr a p have "res = Inl err" "s' = s1" by (auto simp: merge_element_def Let_def)
    with st show ?thesis by simp
  next
    case (Inr plugins)
    with m \<open>adopt_parser config element = Inr config1\<close> a p obtain r2 h' where
      mr: "mergeRules (heap s1) (c_rules ?c2) (e_rules element) = Some (r2, h')"
      by (auto simp: merge_element_def Let_def split: option.splits)
    with m \<open>adopt_parser config element = Inr config1\<close> a p Inr
    have "s' = s1\<lparr>heap := h'\<rparr>" "\<forall>c'. res = Inr c' \<longrightarrow> c' = ?c2\<lparr>c_plugins := plugins\<rparr>"
      by (auto simp: merge_element_def Let_def split: option.splits)
    moreover have "same_records config (?c2\<lparr>c_plugins := plugins\<rparr>)"
      using s2 by (simp add: same_records_def)
    ultimately show ?thesis using st by auto
  qed
qed

lemma merge_elements_state:
  "merge_elements ext fuel els indices config s = Some (res, s') \<Longrightarrow>
   configs s' = configs s \<and> cache s' = cache s"
proof (induction indices arbitrary: config s)
  case Nil
  then show ?case by auto
next
  case (Cons index indices)
  show ?case
  proof (cases "index < length els")
    case False
    with Cons.prems show ?thesis by auto
  next
    case True
    with Cons.prems obtain r1 s1 where
      m: "merge_element ext fuel (els ! index) config s = Some (r1, s1)"
      by (auto split: option.splits)
    from merge_element_state [OF m] have st: "configs s1 = configs s" "cache s1 = cache s"
      by simp_all
    show ?thesis
    proof (cases r1)
      case (Inl e)
      with Cons.prems True m st show ?thesis by auto
    next
      case (Inr c1)
      with Cons.prems True m have "merge_elements ext fuel els indices c1 s1 = Some (res, s')"
        by simp
      from Cons.IH [OF this] st show ?thesis by simp
    qed
  qed
qed

lemma element_refs_member:
  "element_refs els \<subseteq> F \<Longrightarrow> index < length els \<Longrightarrow>
   \<forall>a. Ref a \<in> set (element_values (els ! index)) \<longrightarrow> a \<in> F"
  using nth_mem [of index els] by (fastforce simp: element_refs_def)

lemma merge_elements_region:
  "merge_elements ext fuel els indices config s = Some (res, s') \<Longrightarrow>
   closed_region F (heap s) \<Longrightarrow> records config \<subseteq> F \<Longrightarrow> element_refs els \<subseteq> F \<Longrightarrow>
   region_step F (heap s) (heap s')"
proof (induction indices arbitrary: config s F)
  case Nil
  then show ?case by (auto simp: region_step_refl)
next
  case (Cons index indices)
  show ?case
  proof (cases "index < length els")
    case False
    with Cons.prems show ?thesis by (auto simp: region_step_refl)
  next
    case True
    with Cons.prems(1) obtain r1 s1 where
      m: "merge_element ext fuel (els ! index) config s = Some (r1, s1)"
      by (auto split: option.splits)
    from merge_element_region [OF m Cons.prems(2,3) element_refs_member [OF Cons.prems(4) True]]
    have r1: "region_step F (heap s) (heap s1)" .
    show ?thesis
    proof (cases r1)
      case (Inl e)
      with Cons.prems(1) True m have "s' = s1" by auto
      with r1 show ?thesis by simp
    next
      case (Inr c1)
      with Cons.prems(1) True m have rest:
        "merge_elements ext fuel els indices c1 s1 = Some (res, s')" by simp
      from merge_element_state [OF m] Inr have "same_records config c1" by simp
      with Cons.prems(3) have "records c1 \<subseteq> F \<union> {length (heap s)..<length (heap s1)}"
        by (auto simp: same_records_eq)
      from Cons.IH [OF rest region_step_closed [OF r1] this] Cons.prems(4)
      have "region_step (F \<union> {length (heap s)..<length (heap s1)}) (heap s1) (heap s')"
        by auto
      with r1 show ?thesis by (rule region_step_trans)
    qed
  qed
qed

section \<open>createConfig and extractConfig\<close>

lemma new_ExtractedConfig_region:
  assumes c: "closed_region F h"
  shows "region_step F h (snd (new_ExtractedConfig h))"
proof -
  from c have "\<forall>a \<in> F. a < length h" by (simp add: closed_region_def)
  with c show ?thesis
    by (auto simp: new_ExtractedConfig_def region_step_def closed_region_def refs_of_def
        nth_append less_Suc_eq)
qed

lemma new_ExtractedConfig_records:
  "records (fst (new_ExtractedConfig h)) \<subseteq> {length h..<length (snd (new_ExtractedConfig h))}"
  by (auto simp: new_ExtractedConfig_def records_def)

lemma createConfig_state:
  assumes c: "createConfig ext fuel els indices s = Some (res, s')"
  shows "configs s' = configs s \<and> cache s' = cache s"
proof -
  from c obtain r1 where
    "merge_elements ext fuel els indices (fst (new_ExtractedConfig (heap s)))
       (s\<lparr>heap := snd (new_ExtractedConfig (heap s))\<rparr>) = Some (r1, s')"
    by (auto simp: createConfig_def split: option.splits sum.splits)
  from merge_elements_state [OF this] show ?thesis by simp
qed

lemma createConfig_region:
  assumes c: "createConfig ext fuel els indices s = Some (res, s')"
    and cl: "closed_region F (heap s)" and e: "element_refs els \<subseteq> F"
  shows "region_step F (heap s) (heap s')"
proof -
  let ?c0 = "fst (new_ExtractedConfig (heap s))"
  let ?h0 = "snd (new_ExtractedConfig (heap s))"
  from c obtain r1 where
    m: "merge_elements ext fuel els indices ?c0 (s\<lparr>heap := ?h0\<rparr>) = Some (r1, s')"
    by (auto simp: createConfig_def split: option.splits sum.splits)
  from new_ExtractedConfig_region [OF cl] have s0: "region_step F (heap s) ?h0" .
  have r: "records ?c0 \<subseteq> F \<union> {length (heap s)..<length ?h0}"
    using new_ExtractedConfig_records [of "heap s"] by auto
  from merge_elements_region [OF m] region_step_closed [OF s0] r e
  have "region_step (F \<union> {length (heap s)..<length ?h0}) ?h0 (heap s')" by auto
  with s0 show ?thesis by (rule region_step_trans)
qed

lemma extractConfig_invalid:
  "absolute_path_argument v = None \<Longrightarrow>
   extractConfig ext fuel els s v = Some (Inl (invalid_filePath_error ext (heap s) v), s)"
  by (simp add: extractConfig_def)

lemma extractConfig_hit:
  "absolute_path_argument v = Some p \<Longrightarrow>
   map_of (cache s) (join_indices (getMatchedIndices ext els p)) = Some c \<Longrightarrow>
   extractConfig ext fuel els s v = Some (Inr c, s)"
  by (simp add: extractConfig_def Let_def)

lemma extractConfig_miss:
  "absolute_path_argument v = Some p \<Longrightarrow>
   map_of (cache s) (join_indices (getMatchedIndices ext els p)) = None \<Longrightarrow>
   extractConfig ext fuel els s v =
     (case createConfig ext fuel els (getMatchedIndices ext els p) s of
        None \<Rightarrow> None
      | Some (Inl e, s') \<Rightarrow> Some (Inl e, s')
      | Some (Inr config, s') \<Rightarrow>
          Some (Inr (length (configs s')),
                s'\<lparr>configs := configs s' @ [config],
                   cache := AList.update (join_indices (getMatchedIndices ext els p))
                              (length (configs s')) (cache s')\<rparr>))"
  by (simp add: extractConfig_def Let_def)

lemma extractConfig_cases:
  assumes e: "extractConfig ext fuel els s v = Some (r, s')"
  obtains
    (invalid) "absolute_path_argument v = None" "s' = s"
      "r = Inl (invalid_filePath_error ext (heap s) v)"
  | (hit) p c where "absolute_path_argument v = Some p"
      "map_of (cache s) (join_indices (getMatchedIndices ext els p)) = Some c"
      "s' = s" "r = Inr c"
  | (thrown) p err where "absolute_path_argument v = Some p"
      "map_of (cache s) (join_indices (getMatchedIndices ext els p)) = None"
      "createConfig ext fuel els (getMatchedIndices ext els p) s = Some (Inl err, s')"
      "r = Inl err"
  | (made) p config s1 where "absolute_path_argument v = Some p"
      "map_of (cache s) (join_indices (getMatchedIndices ext els p)) = None"
      "createConfig ext fuel els (getMatchedIndices ext els p) s = Some (Inr config, s1)"
      "r = Inr (length (configs s1))"
      "s' = s1\<lparr>configs := configs s1 @ [config],
               cache := AList.update (join_indices (getMatchedIndices ext els p))
                          (length (configs s1)) (cache s1)\<rparr>"
proof (cases "absolute_path_argument v")
  case None
  with e have "s' = s" "r = Inl (invalid_filePath_error ext (heap s) v)"
    by (auto simp: extractConfig_invalid)
  with None show ?thesis by (rule invalid)
next
  case (Some p)
  note p = this
  show ?thesis
  proof (cases "map_of (cache s) (join_indices (getMatchedIndices ext els p))")
    case (Some c)
    with e p have "s' = s" "r = Inr c"
      by (auto simp: extractConfig_hit)
    with p Some show ?thesis by (rule hit)
  next
    case None
    from e p None
    obtain r1 s1 where c: "createConfig ext fuel els (getMatchedIndices ext els p) s = Some (r1, s1)"
      by (auto simp: extractConfig_miss split: option.splits)
    show ?thesis
    proof (cases r1)
      case (Inl err)
      with e p None c have "s' = s1" "r = Inl err"
        by (auto simp: extractConfig_miss)
      with p None c Inl show ?thesis by (auto intro: thrown)
    next
      case (Inr config)
      with e p None c have "r = Inr (length (configs s1))"
        "s' = s1\<lparr>configs := configs s1 @ [config],
               cache := AList.update (join_indices (getMatchedIndices ext els p))
                          (length (configs s1)) (cache s1)\<rparr>"
        by (auto simp: extractConfig_miss)
      with p None c Inr show ?thesis by (auto intro: made)
    qed
  qed
qed

lemma extractConfig_cache_kept:
  assumes e: "extractConfig ext fuel els s v = Some (r, s')"
    and k: "map_of (cache s) k = Some c"
  shows "map_of (cache s') k = Some c"
  using e
proof (cases rule: extractConfig_cases)
  case (thrown p err)
  from createConfig_state [OF thrown(3)] k show ?thesis by simp
next
  case (made p config s1)
  from createConfig_state [OF made(3)] have cs: "cache s1 = cache s" by simp
  from made(2) k have "k \<noteq> join_indices (getMatchedIndices ext els p)" by auto
  with made(5) cs k show ?thesis by (simp add: update_conv')
qed (use k in simp_all)

lemma later_state_cache_kept:
  "later_state ext els s1 s2 \<Longrightarrow> map_of (cache s1) k = Some c \<Longrightarrow> map_of (cache s2) k = Some c"
  by (induction rule: later_state.induct) (auto intro: extractConfig_cache_kept)

lemma extractConfig_result_cached:
  assumes e: "extractConfig ext fuel els s (Str p) = Some (Inr c, s')"
  shows "isAbsolute p \<and> map_of (cache s') (join_indices (getMatchedIndices ext els p)) = Some c"
  using e
proof (cases rule: extractConfig_cases)
  case (hit q c')
  then show ?thesis by (auto split: if_splits)
next
  case (made q config s1)
  then show ?thesis by (auto simp: update_conv' split: if_splits)
qed simp_all

section \<open>Numerals and the cache key\<close>


lemma decimal_nonempty: "decimal n \<noteq> []"
  by (subst decimal.simps) simp







lemma join_indices_nonempty: "is \<noteq> [] \<Longrightarrow> join_indices is \<noteq> []"
  by (induction "is" rule: join_indices.induct) (simp_all add: decimal_nonempty)

lemma join_indices_Nil: "(join_indices is = []) = (is = [])"
  using join_indices_nonempty [of "is"] by auto



section \<open>The states an array reaches\<close>

lemma createConfig_no_indices:
  "createConfig ext fuel els [] s =
     Some (Inr (fst (new_ExtractedConfig (heap s))),
           s\<lparr>heap := snd (new_ExtractedConfig (heap s))\<rparr>)"
  by (simp add: createConfig_def)

lemma new_config_empty: "empty_config (snd (new_ExtractedConfig h)) (fst (new_ExtractedConfig h))"
  by (simp add: empty_config_def new_ExtractedConfig_def deref_def nth_append)

lemma createConfig_parser_error:
  assumes "first_parser_error els indices = Some err"
  shows "createConfig ext fuel els indices s =
           Some (Inl err, s\<lparr>heap := snd (new_ExtractedConfig (heap s))\<rparr>)"
proof -
  from assms obtain index rest p where i: "indices = index # rest" "index < length els"
    "e_parser (els ! index) = Some p" "dep_error p = Some err"
    by (auto simp: first_parser_error_def split: list.splits if_splits option.splits)
  have "adopt_parser (fst (new_ExtractedConfig (heap s))) (els ! index) = Inl err"
    using i by (simp add: adopt_parser_def new_ExtractedConfig_def)
  with i show ?thesis
    by (simp add: createConfig_def merge_element_def)
qed

text \<open>The heap of a state: what a call that writes around the kept records keeps.\<close>

lemma heap_closed_refs:
  assumes c: "heap_closed h" and a: "a < length h"
  shows "refs_of (h ! a) \<subseteq> {..<length h}"
proof
  fix r assume "r \<in> refs_of (h ! a)"
  then have v: "Ref r \<in> obj_vals (h ! a)" by (simp add: refs_of_def)
  from a have m: "h ! a \<in> set h" by simp
  from c m have "list_all (val_in_heap h) (case h ! a of
       Object ps \<Rightarrow> map snd ps | Array xs ps \<Rightarrow> xs @ map snd ps)"
    by (auto simp: heap_closed_def list_all_iff)
  with v have "val_in_heap h (Ref r)"
    by (cases "h ! a") (force simp: list_all_iff)+
  then show "r \<in> {..<length h}" by simp
qed

lemma elements_in_heap_refs: "elements_in_heap h els \<Longrightarrow> element_refs els \<subseteq> {..<length h}"
  by (fastforce simp: elements_in_heap_def element_refs_def list_all_iff)

lemma heap_inv_initial:
  assumes r: "runtime_heap h" and e: "elements_in_heap h els"
  shows "heap_inv els h {}"
proof -
  from r have "objectPrototype < length h" "arrayPrototype < length h"
    by (auto simp: runtime_heap_def deref_def split: if_splits)
  moreover from r have "heap_closed h" by (simp add: runtime_heap_def)
  ultimately show ?thesis
    using heap_closed_refs [of h] elements_in_heap_refs [OF e]
    by (simp add: heap_inv_def unreferenced_def objectPrototype_def arrayPrototype_def)
qed

lemma heap_inv_closed:
  assumes i: "heap_inv els h E"
  shows "closed_region ({..<length h} - E) h" and "element_refs els \<subseteq> {..<length h} - E"
proof -
  from i show "element_refs els \<subseteq> {..<length h} - E"
    by (auto simp: heap_inv_def unreferenced_def)
  show "closed_region ({..<length h} - E) h"
    unfolding closed_region_def
  proof (intro conjI ballI)
    from i show "objectPrototype \<in> {..<length h} - E" "arrayPrototype \<in> {..<length h} - E"
      by (simp_all add: heap_inv_def unreferenced_def)
  next
    fix a assume a: "a \<in> {..<length h} - E"
    then show "a < length h" by simp
    from i a have "refs_of (h ! a) \<subseteq> {..<length h}" "refs_of (h ! a) \<inter> E = {}"
      by (simp_all add: heap_inv_def unreferenced_def)
    then show "refs_of (h ! a) \<subseteq> {..<length h} - E" by auto
  qed
qed

lemma heap_inv_step:
  assumes i: "heap_inv els h E" and s: "region_step ({..<length h} - E) h h'"
  shows "heap_inv els h' E" and "\<forall>a \<in> E. h' ! a = h ! a"
proof -
  let ?F = "{..<length h} - E"
  from i have el: "E \<subseteq> {..<length h}" by (simp add: heap_inv_def)
  from s have l: "length h \<le> length h'"
    and c: "closed_region (?F \<union> {length h..<length h'}) h'"
    and k: "\<forall>a. a < length h \<and> a \<notin> ?F \<longrightarrow> h' ! a = h ! a"
    by (simp_all add: region_step_def)
  from k el show same: "\<forall>a \<in> E. h' ! a = h ! a" by auto
  have refs: "refs_of (h' ! a) \<subseteq> {..<length h'} \<and> refs_of (h' ! a) \<inter> E = {}"
    if a: "a < length h'" for a
  proof (cases "a \<in> E")
    case True
    with same have e: "h' ! a = h ! a" by simp
    from True el have "a < length h" by auto
    with i have "refs_of (h ! a) \<subseteq> {..<length h}" "refs_of (h ! a) \<inter> E = {}"
      by (simp_all add: heap_inv_def unreferenced_def)
    with e l show ?thesis by auto
  next
    case False
    with a have "a \<in> ?F \<union> {length h..<length h'}" by auto
    with c have "refs_of (h' ! a) \<subseteq> ?F \<union> {length h..<length h'}"
      unfolding closed_region_def by blast
    with l el show ?thesis by (fastforce simp: subset_iff)
  qed
  from i l el refs show "heap_inv els h' E"
    by (auto simp: heap_inv_def unreferenced_def)
qed

lemma heap_inv_new:
  assumes i: "heap_inv els h {}"
  shows "heap_inv els (snd (new_ExtractedConfig h)) (records (fst (new_ExtractedConfig h)))"
proof -
  let ?h = "snd (new_ExtractedConfig h)"
  let ?E = "records (fst (new_ExtractedConfig h))"
  have l: "length ?h = length h + 5" by (simp add: new_ExtractedConfig_def)
  have E: "?E = {length h, length h + 1, length h + 2, length h + 3, length h + 4}"
    by (auto simp: new_ExtractedConfig_def records_def)
  have old: "?h ! a = h ! a" if "a < length h" for a
    using that by (simp add: new_ExtractedConfig_def nth_append)
  have new: "refs_of (?h ! a) = {}" if "length h \<le> a" "a < length ?h" for a
  proof -
    from that l have "a - length h < 5" by simp
    then have "[Object [], Object [], Object [], Object [], Object []] ! (a - length h) =
        Object []"
      by (simp add: nth_Cons' less_Suc_eq)
    with that show ?thesis by (simp add: new_ExtractedConfig_def nth_append refs_of_def)
  qed
  have refs: "refs_of (?h ! a) \<subseteq> {..<length h}" if "a < length ?h" for a
  proof (cases "a < length h")
    case True
    with i old show ?thesis by (simp add: heap_inv_def)
  next
    case False
    with new that show ?thesis by simp
  qed
  from i have "objectPrototype < length h" "arrayPrototype < length h"
    "element_refs els \<subseteq> {..<length h}"
    by (simp_all add: heap_inv_def)
  with refs l E show ?thesis
    by (fastforce simp: heap_inv_def unreferenced_def)
qed

lemma empty_config_same:
  assumes e: "empty_config h c" and s: "\<forall>a \<in> records c. h' ! a = h ! a"
    and l: "length h \<le> length h'"
  shows "empty_config h' c"
proof -
  have "deref h' a = Some (Object [])" if "a \<in> records c" "deref h a = Some (Object [])" for a
    using that s l by (auto simp: deref_def split: if_splits)
  with e show ?thesis by (simp add: empty_config_def records_def)
qed

lemma cache_inv_initial:
  "runtime_heap h \<Longrightarrow> elements_in_heap h els \<Longrightarrow>
   cache_inv els \<lparr>heap = h, configs = [], cache = [], envMap = [], processorMap = [], ruleMap = []\<rparr>"
  by (simp add: cache_inv_def kept_records_def heap_inv_initial)

lemma cache_inv_created:
  assumes ci: "cache_inv els s"
    and cc: "createConfig ext fuel els indices s = Some (res, s1)"
  shows "cache_inv els s1"
proof -
  from createConfig_state [OF cc] have st: "configs s1 = configs s" "cache s1 = cache s"
    by simp_all
  then have k: "kept_records s1 = kept_records s"
    by (simp add: kept_records_def cong: option.case_cong)
  from ci have hi: "heap_inv els (heap s) (kept_records s)" by (simp add: cache_inv_def)
  from createConfig_region [OF cc heap_inv_closed [OF hi]]
  have rs: "region_step ({..<length (heap s)} - kept_records s) (heap s) (heap s1)" .
  from heap_inv_step [OF hi rs]
  have h1: "heap_inv els (heap s1) (kept_records s)"
    and same: "\<forall>a \<in> kept_records s. heap s1 ! a = heap s ! a" by simp_all
  from rs have l: "length (heap s) \<le> length (heap s1)" by (simp add: region_step_def)
  have "empty_config (heap s1) (configs s ! c)" if m: "map_of (cache s) [] = Some c" for c
  proof -
    from ci m have e: "empty_config (heap s) (configs s ! c)" by (simp add: cache_inv_def)
    from m have "kept_records s = records (configs s ! c)" by (simp add: kept_records_def)
    with same have "\<forall>a \<in> records (configs s ! c). heap s1 ! a = heap s ! a" by simp
    from empty_config_same [OF e this l] show ?thesis .
  qed
  with ci st k h1 show ?thesis by (simp add: cache_inv_def)
qed

lemma cache_inv_made:
  assumes ci: "cache_inv els s"
    and cc: "createConfig ext fuel els indices s = Some (Inr config, s1)"
    and miss: "map_of (cache s) (join_indices indices) = None"
  shows "cache_inv els (s1\<lparr>configs := configs s1 @ [config],
           cache := AList.update (join_indices indices) (length (configs s1)) (cache s1)\<rparr>)"
proof -
  from createConfig_state [OF cc] have cs: "configs s1 = configs s" "cache s1 = cache s"
    by simp_all
  from cache_inv_created [OF ci cc] have c1: "cache_inv els s1" .
  let ?key = "join_indices indices"
  let ?s' = "s1\<lparr>configs := configs s1 @ [config],
           cache := AList.update ?key (length (configs s1)) (cache s1)\<rparr>"
  have lookup: "\<And>k c. map_of (cache ?s') k = Some c \<Longrightarrow>
      (k = ?key \<and> c = length (configs s1)) \<or> (k \<noteq> ?key \<and> map_of (cache s1) k = Some c)"
    by (auto simp: update_conv' split: if_splits)
  have fpe: "first_parser_error els indices = None"
  proof (rule ccontr)
    assume "first_parser_error els indices \<noteq> None"
    then obtain err where "first_parser_error els indices = Some err" by auto
    from createConfig_parser_error [OF this, of ext fuel s] cc show False by simp
  qed
  have old: "configs ?s' ! c = configs s1 ! c" if "map_of (cache s1) k = Some c" for k c
    using c1 that by (auto simp: cache_inv_def nth_append)
  show ?thesis
  proof (cases "indices = []")
    case True
    with cc have new: "config = fst (new_ExtractedConfig (heap s))"
      "heap s1 = snd (new_ExtractedConfig (heap s))"
      by (auto simp: createConfig_no_indices)
    from True miss have "kept_records s = {}" by (simp add: kept_records_def)
    with ci have "heap_inv els (heap s) {}" by (simp add: cache_inv_def)
    from heap_inv_new [OF this] new
    have hn: "heap_inv els (heap s1) (records config)" by simp
    from True have kr: "kept_records ?s' = records config"
      by (simp add: kept_records_def update_conv')
    show ?thesis
      unfolding cache_inv_def
    proof (intro conjI allI impI)
      fix k c assume "map_of (cache ?s') k = Some c"
      from lookup [OF this] c1 show "c < length (configs ?s')"
        by (auto simp: cache_inv_def less_Suc_eq)
    next
      fix k c assume "map_of (cache ?s') k = Some c"
      from lookup [OF this] c1 fpe
      show "\<exists>is. k = join_indices is \<and> first_parser_error els is = None"
        by (auto simp: cache_inv_def)
    next
      from hn kr show "heap_inv els (heap ?s') (kept_records ?s')" by simp
    next
      fix c assume "map_of (cache ?s') [] = Some c"
      with True have "c = length (configs s1)" by (simp add: update_conv')
      with new new_config_empty [of "heap s"]
      show "empty_config (heap ?s') (configs ?s' ! c)" by simp
    qed
  next
    case False
    then have ne: "?key \<noteq> []" using join_indices_Nil [of indices] by auto
    then have m: "map_of (cache ?s') [] = map_of (cache s1) []"
      by (simp add: update_conv')
    have kr: "kept_records ?s' = kept_records s1"
    proof (cases "map_of (cache s1) []")
      case None
      with m show ?thesis by (simp add: kept_records_def)
    next
      case (Some c)
      with m old [OF Some] show ?thesis by (simp add: kept_records_def)
    qed
    show ?thesis
      unfolding cache_inv_def
    proof (intro conjI allI impI)
      fix k c assume "map_of (cache ?s') k = Some c"
      from lookup [OF this] c1 show "c < length (configs ?s')"
        by (auto simp: cache_inv_def less_Suc_eq)
    next
      fix k c assume "map_of (cache ?s') k = Some c"
      from lookup [OF this] c1 fpe
      show "\<exists>is. k = join_indices is \<and> first_parser_error els is = None"
        by (auto simp: cache_inv_def)
    next
      from c1 kr show "heap_inv els (heap ?s') (kept_records ?s')"
        by (simp add: cache_inv_def)
    next
      fix c assume "map_of (cache ?s') [] = Some c"
      with m have s: "map_of (cache s1) [] = Some c" by simp
      with c1 have "empty_config (heap s1) (configs s1 ! c)" by (simp add: cache_inv_def)
      with old [OF s] show "empty_config (heap ?s') (configs ?s' ! c)" by simp
    qed
  qed
qed

lemma extractConfig_cache_inv:
  assumes e: "extractConfig ext fuel els s v = Some (r, s')" and ci: "cache_inv els s"
  shows "cache_inv els s'"
  using e
proof (cases rule: extractConfig_cases)
  case (thrown p err)
  from cache_inv_created [OF ci thrown(3)] show ?thesis .
next
  case (made p config s1)
  from cache_inv_made [OF ci made(3) made(2)] made(5) show ?thesis by simp
qed (use ci in simp_all)

lemma reachable_cache_inv: "reachable ext els s \<Longrightarrow> cache_inv els s"
  by (induction rule: reachable.induct) (auto intro: cache_inv_initial extractConfig_cache_inv)

section \<open>The example array\<close>

lemma example_extract:
  "extractConfig example_env 2 example_elements (initial_state example_heap) (Str ''/src/a.js'') =
     Some (Inr 0, example_result)"
  by code_simp

lemma example_throw:
  "extractConfig example_env 2 example_elements example_result (Str ''/src/x.ts'') =
     Some (Inl (new_Error ''Failed to load a parser.''), example_after_throw)"
  by code_simp

lemma pristine_reachable:
  "elements_in_heap pristine_heap els \<Longrightarrow> reachable ext els (initial_state pristine_heap)"
  unfolding initial_state_def
  by (rule reachable_init) (simp_all add: runtime_heap_def pristine_heap_def deref_def
      heap_closed_def objectPrototype_def arrayPrototype_def)

lemma example_reachable: "reachable example_env example_elements (initial_state example_heap)"
proof -
  have "runtime_heap example_heap" by code_simp
  moreover have "elements_in_heap example_heap example_elements" by code_simp
  ultimately show ?thesis unfolding initial_state_def by (rule reachable_init)
qed

lemma js_proto_extract:
  "extractConfig example_env 3 js_proto_elements (initial_state proto_heap) (Str ''/src/a.js'') =
     Some (Inr 0, proto_result)"
  by code_simp

lemma js_proto_reachable: "reachable example_env js_proto_elements proto_result"
proof -
  have "runtime_heap proto_heap" by code_simp
  moreover have "elements_in_heap proto_heap js_proto_elements" by code_simp
  ultimately have "reachable example_env js_proto_elements (initial_state proto_heap)"
    unfolding initial_state_def by (rule reachable_init)
  then show ?thesis using js_proto_extract by (rule reachable_step)
qed

section \<open>The argument of extractConfig\<close>




text \<open>
  What the second version does with its argument: \<open>getMatchedIndices\<close> gets it as it is.
  A string is matched as in the first version, absolute or not; and on an array whose
  elements have no criteria the result is the same for every argument.
\<close>

lemma getMatchedIndices_loop_string:
  "getMatchedIndices_loop ext els (Str p) n =
     Inr (filter (\<lambda>i. case e_criteria (els ! i) of None \<Rightarrow> True | Some t \<Rightarrow> test_path ext t p)
            (rev [0..<n]))"
  by (induction n) (auto simp: test_value_def split: option.splits)

lemma getMatchedIndices_root_string:
  "getMatchedIndices_root ext els (Str p) = Inr (getMatchedIndices ext els p)"
  by (simp add: getMatchedIndices_root_def getMatchedIndices_def getMatchedIndices_loop_string)

lemma getMatchedIndices_loop_no_criteria:
  "n \<le> length els \<Longrightarrow> \<forall>e \<in> set els. e_criteria e = None \<Longrightarrow>
   getMatchedIndices_loop ext els v n = Inr (rev [0..<n])"
  by (induction n) auto

lemma extractConfig_root_no_criteria:
  assumes "\<forall>e \<in> set els. e_criteria e = None"
  shows "extractConfig_root ext fuel els s v = extractConfig_root ext fuel els s w"
  using getMatchedIndices_loop_no_criteria [OF le_refl assms]
  by (simp add: extractConfig_root_def getMatchedIndices_root_def)

section \<open>The cache of extractConfig\<close>

text \<open>
  Claim C3. When a call of \<open>extractConfig\<close> has returned an extracted config, every later
  call on the same array whose matched indices are the same sequence, for the same path
  or another, returns the same reference and leaves the state as it is: the entry of
  the cache under the joined indices is that reference and is never replaced.
\<close>

theorem extractConfig_same_reference:
  assumes "extractConfig ext fuel elements s (Str p1) = Some (Inr c, s1)"
    and "later_state ext elements s1 s2"
    and "isAbsolute p2"
    and "getMatchedIndices ext elements p2 = getMatchedIndices ext elements p1"
  shows "extractConfig ext fuel2 elements s2 (Str p2) = Some (Inr c, s2) \<and>
         map_of (cache s2) (join_indices (getMatchedIndices ext elements p1)) = Some c"
proof -
  from extractConfig_result_cached [OF assms(1)]
  have "map_of (cache s1) (join_indices (getMatchedIndices ext elements p1)) = Some c" by simp
  from later_state_cache_kept [OF assms(2) this]
  have k: "map_of (cache s2) (join_indices (getMatchedIndices ext elements p1)) = Some c" .
  from assms(3) have "absolute_path_argument (Str p2) = Some p2" by simp
  from extractConfig_hit [OF this, of s2 ext elements c fuel2] k assms(4)
  show ?thesis by simp
qed

theorem extractConfig_same_reference_witness:
  "extractConfig example_env 2 example_elements (initial_state example_heap)
     (Str ''/src/a.js'') = Some (Inr 0, example_result) \<and>
   extractConfig example_env 2 example_elements example_result (Str ''/src/x.ts'') =
     Some (Inl (new_Error ''Failed to load a parser.''), example_after_throw) \<and>
   extractConfig example_env 0 example_elements example_after_throw (Str ''/lib/b.js'') =
     Some (Inr 0, example_after_throw)"
proof -
  have l: "later_state example_env example_elements example_result example_after_throw"
    by (rule later_step [OF later_refl example_throw])
  have a: "isAbsolute ''/lib/b.js''" by (simp add: isAbsolute_def)
  have m: "getMatchedIndices example_env example_elements ''/lib/b.js'' =
           getMatchedIndices example_env example_elements ''/src/a.js''"
    by code_simp
  from extractConfig_same_reference [OF example_extract l a m, of 0] example_extract example_throw
  show ?thesis by simp
qed

section \<open>Extraction when no element matches\<close>

text \<open>
  Claim C9. In every state an array reaches, when no element matches an absolute path
  (the empty array included), \<open>extractConfig\<close> returns an extracted config, whatever the
  bound on the recursion: its five records are empty objects, it has no plugin, and its
  parser and processor are \<open>null\<close>. The elements are arbitrary, so a parser or plugin
  that failed to load in an element that does not match raises nothing.
\<close>

theorem extractConfig_no_match:
  assumes "reachable ext elements s"
    and "isAbsolute p"
    and "getMatchedIndices ext elements p = []"
  shows "\<exists>c s'. extractConfig ext fuel elements s (Str p) = Some (Inr c, s') \<and>
           c < length (configs s') \<and> empty_config (heap s') (configs s' ! c)"
proof -
  from assms(1) have ci: "cache_inv elements s" by (rule reachable_cache_inv)
  from assms(2) have a: "absolute_path_argument (Str p) = Some p" by simp
  show ?thesis
  proof (cases "map_of (cache s) []")
    case (Some c)
    with ci have "c < length (configs s)" "empty_config (heap s) (configs s ! c)"
      by (auto simp: cache_inv_def)
    moreover from Some assms(3) have "extractConfig ext fuel elements s (Str p) = Some (Inr c, s)"
      by (simp add: extractConfig_hit [OF a])
    ultimately show ?thesis by blast
  next
    case None
    let ?s' = "s\<lparr>heap := snd (new_ExtractedConfig (heap s)),
                 configs := configs s @ [fst (new_ExtractedConfig (heap s))],
                 cache := AList.update [] (length (configs s)) (cache s)\<rparr>"
    from None assms(3)
    have "extractConfig ext fuel elements s (Str p) = Some (Inr (length (configs s)), ?s')"
      by (simp add: extractConfig_miss [OF a] createConfig_no_indices)
    moreover have "empty_config (heap ?s') (configs ?s' ! length (configs s))"
      using new_config_empty [of "heap s"] by simp
    ultimately show ?thesis by auto
  qed
qed

theorem extractConfig_no_match_witness:
  "(\<exists>c s'. extractConfig example_env 0 [ts_element] (initial_state pristine_heap)
             (Str ''/src/a.js'') = Some (Inr c, s') \<and>
           c < length (configs s') \<and> empty_config (heap s') (configs s' ! c)) \<and>
   (\<exists>c s'. extractConfig example_env 0 js_proto_elements proto_result
             (Str ''/README.md'') = Some (Inr c, s') \<and>
           c < length (configs s') \<and> empty_config (heap s') (configs s' ! c))"
proof -
  have "elements_in_heap pristine_heap [ts_element]" by code_simp
  then have r: "reachable example_env [ts_element] (initial_state pristine_heap)"
    by (rule pristine_reachable)
  have a: "isAbsolute ''/src/a.js''" by (simp add: isAbsolute_def)
  have m: "getMatchedIndices example_env [ts_element] ''/src/a.js'' = []" by code_simp
  have b: "isAbsolute ''/README.md''" by (simp add: isAbsolute_def)
  have n: "getMatchedIndices example_env js_proto_elements ''/README.md'' = []" by code_simp
  from extractConfig_no_match [OF r a m] extractConfig_no_match [OF js_proto_reachable b n]
  show ?thesis by blast
qed

section \<open>Parsers that failed to load\<close>





section \<open>Elements that extraction writes to\<close>

text \<open>
  Claim C7 fails on the code. \<open>assignWithoutOverwrite\<close> reads \<open>target[key]\<close> through the
  prototype chain: for the own key \<open>__proto__\<close> of the settings of the second element
  it finds \<open>Object.prototype\<close> and merges into it, so that \<open>Object.prototype.semi\<close>
  becomes a copy of \<open>["a"]\<close>. \<open>mergeRules\<close> then finds that array as \<open>target["semi"]\<close> and
  pushes the options object of the element's rule onto it; and the merge of the settings
  of the first element, which finds the array again as \<open>target["semi"]\<close>, goes down into
  that options object and writes the property \<open>added\<close> to it. The call returns a config
  whose settings and rules are empty; \<open>Object.prototype\<close> has changed; and the rules of
  the second element do not read as before.
\<close>

theorem extractConfig_writes_element:
  "runtime_heap proto_heap \<and> elements_in_heap proto_heap proto_elements \<and>
   extractConfig example_env 3 proto_elements (initial_state proto_heap) (Str ''/src/a.js'') =
     Some (Inr 0, proto_result) \<and>
   empty_config (heap proto_result) (configs proto_result ! 0) \<and>
   deref proto_heap objectPrototype = Some (Object []) \<and>
   deref (heap proto_result) objectPrototype = Some (Object [(''semi'', Ref 16)]) \<and>
   deep_value 3 proto_heap (e_rules (proto_elements ! 1)) =
     TreeObject [(''semi'', TreeArray [TreeStr ''error'',
        TreeObject [(''omitLastInOneLineBlock'', TreeBool True)]] [])] \<and>
   deep_value 3 (heap proto_result) (e_rules (proto_elements ! 1)) =
     TreeObject [(''semi'', TreeArray [TreeStr ''error'',
        TreeObject [(''omitLastInOneLineBlock'', TreeBool True), (''added'', TreeNum 1)]] [])]"
  by code_simp

section \<open>Rules named like an inherited property\<close>

text \<open>
  Claim C2 fails on the code. \<open>mergeRules\<close> takes \<open>target[key] === void 0\<close> for "the rule
  is not yet present", and \<open>target[key]\<close> is read through the prototype chain. The rule
  \<open>constructor\<close> is in no extracted config, yet \<open>target["constructor"]\<close> is the function
  \<open>Object\<close>, whose \<open>length\<close> is 1: the setting \<open>["error", "always"]\<close> is not stored, the
  loop goes on to push its option onto the function, and the extraction throws a
  \<open>TypeError\<close>. The rule \<open>toString\<close> with the setting \<open>"error"\<close> is dropped without a word:
  the extracted config has the rule \<open>semi\<close> of the same element and no rule \<open>toString\<close>.
\<close>

theorem mergeRules_inherited_key:
  "merge_rule constructor_heap 3 (Object []) ''constructor'' (Ref 2) =
     Some (Some (type_error ''targetDef.push is not a function''), constructor_heap) \<and>
   extractConfig example_env 1 constructor_elements (initial_state constructor_heap)
       (Str ''/src/a.js'') =
     Some (Inl (type_error ''targetDef.push is not a function''),
       initial_state (constructor_heap @ [Object [], Object [], Object [], Object [], Object []])) \<and>
   extractConfig example_env 1 toString_elements (initial_state toString_heap)
       (Str ''/src/a.js'') =
     Some (Inr 0,
       \<lparr>heap = toString_heap @
          [Object [], Object [], Object [], Object [(''semi'', Ref 8)], Object [],
           Array [Str ''error''] []],
        configs = [\<lparr>c_env = 3, c_globals = 4, c_parser = None, c_parserOptions = 5,
                    c_plugins = [], c_processor = None, c_rules = 6, c_settings = 7\<rparr>],
        cache = [(''0'', 0)], envMap = [], processorMap = [], ruleMap = []\<rparr>) \<and>
   rule_setting
     (toString_heap @
        [Object [], Object [], Object [], Object [(''semi'', Ref 8)], Object [],
         Array [Str ''error''] []]) 6 ''toString'' = None \<and>
   rule_setting
     (toString_heap @
        [Object [], Object [], Object [], Object [(''semi'', Ref 8)], Object [],
         Array [Str ''error''] []]) 6 ''semi'' = Some [Str ''error'']"
  by code_simp

end
